theory Spec2Isabelle
  imports Main "HOL-Library.Char_ord" "HOL-Library.List_Lexorder"
begin

section \<open>Dietmate: the plan generator and its derived views\<close>

text \<open>
  A shallow embedding of \<^verbatim>\<open>dietmate_gui.py\<close>: the recipe records, the profile
  dictionary, the filter-then-choose routine \<^verbatim>\<open>generate_plan\<close>, and the two views
  computed from the current plan (\<^verbatim>\<open>export_shopping_list\<close>, \<^verbatim>\<open>show_chart\<close>).

  Conventions of the model.
  \<^item> A Python \<^verbatim>\<open>str\<close> is a \<open>string\<close>, and a \<open>char\<close> is the code point of that value
    (0 to 255, the Latin-1 range, which is all the type holds). On this range
    \<^verbatim>\<open>lower\<close>, \<^verbatim>\<open>strip\<close> and the comparison of strings are those of Python.
  \<^item> A Python \<^verbatim>\<open>dict\<close> whose order matters (the plan, a day of the plan) is an
    association list in insertion order, written with \<open>dict_set\<close>.
  \<^item> The module-level random generator is an explicit stream of raw draws that is
    threaded through the calls of \<^verbatim>\<open>random.choice\<close>.
  \<^item> A message box is a value of type \<open>dialog\<close> returned next to the new state.
    The tkinter widgets, the text area rendering and the file dialogs are
    presentation and are left out.
\<close>

subsection \<open>Strings\<close>

text \<open>
  \<^verbatim>\<open>str.lower\<close>, one character at a time. Below 256 the characters it changes are
  \<^verbatim>\<open>A\<close>..\<^verbatim>\<open>Z\<close> (65..90) and the accented capitals 192..222 without the
  multiplication sign 215; each moves up by 32.
\<close>

definition lower_char :: "char \<Rightarrow> char" where
  "lower_char c =
     (let n = (of_char c :: nat)
      in if (65 \<le> n \<and> n \<le> 90) \<or> (192 \<le> n \<and> n \<le> 222 \<and> n \<noteq> 215)
         then char_of (n + 32) else c)"

definition lower :: "string \<Rightarrow> string" where
  "lower s = map lower_char s"

text \<open>
  The characters \<^verbatim>\<open>str.strip()\<close> removes, those for which \<^verbatim>\<open>str.isspace\<close> holds.
  Below 256 they are: tab, line feed, vertical tab, form feed, carriage return
  (9..13), the four separators 28..31, the space (32), next line (133) and the
  no-break space (160).
\<close>

definition is_space :: "char \<Rightarrow> bool" where
  "is_space c =
     (let n = (of_char c :: nat)
      in (9 \<le> n \<and> n \<le> 13) \<or> (28 \<le> n \<and> n \<le> 32) \<or> n = 133 \<or> n = 160)"

definition strip :: "string \<Rightarrow> string" where
  "strip s = rev (dropWhile is_space (rev (dropWhile is_space s)))"

text \<open>\<^verbatim>\<open>s.split(sep)\<close> for a one-character separator: never empty, \<^verbatim>\<open>"".split(",") == [""]\<close>.\<close>

fun split :: "char \<Rightarrow> string \<Rightarrow> string list" where
  "split sep [] = [[]]"
| "split sep (c # cs) =
     (if c = sep then [] # split sep cs
      else (case split sep cs of
              [] \<Rightarrow> [[c]]
            | w # ws \<Rightarrow> (c # w) # ws))"

text \<open>\<^verbatim>\<open>sep.join(xs)\<close>.\<close>

fun join :: "string \<Rightarrow> string list \<Rightarrow> string" where
  "join sep [] = []"
| "join sep [x] = x"
| "join sep (x # y # ys) = x @ sep @ join sep (y # ys)"

text \<open>\<^verbatim>\<open>a in s\<close> on strings: \<open>a\<close> occurs in \<open>s\<close> as a contiguous substring.\<close>

fun starts_with :: "string \<Rightarrow> string \<Rightarrow> bool" where
  "starts_with [] s = True"
| "starts_with (a # as) [] = False"
| "starts_with (a # as) (c # cs) = (a = c \<and> starts_with as cs)"

fun str_in :: "string \<Rightarrow> string \<Rightarrow> bool" where
  "str_in a [] = (a = [])"
| "str_in a (c # cs) = (starts_with a (c # cs) \<or> str_in a cs)"

text \<open>\<^verbatim>\<open>str(n)\<close> for a non-negative integer, used by the f-string \<^verbatim>\<open>f"Day {day}"\<close>.\<close>

definition digit_char :: "nat \<Rightarrow> char" where
  "digit_char d = char_of (48 + d)"

function str_nat :: "nat \<Rightarrow> string" where
  "str_nat n = (if n < 10 then [digit_char n] else str_nat (n div 10) @ [digit_char (n mod 10)])"
  by pat_completeness auto
termination
  by (relation "measure (\<lambda>n. n)") auto

subsection \<open>Dictionaries in insertion order\<close>

text \<open>
  \<^verbatim>\<open>d[k] = v\<close>: an existing key keeps its place and gets the new value, a new key
  goes to the end.
\<close>

fun dict_set :: "('k \<times> 'v) list \<Rightarrow> 'k \<Rightarrow> 'v \<Rightarrow> ('k \<times> 'v) list" where
  "dict_set [] k v = [(k, v)]"
| "dict_set ((k', v') # d) k v = (if k' = k then (k, v) # d else (k', v') # dict_set d k v)"

text \<open>\<^verbatim>\<open>d.get(k, default)\<close>.\<close>

definition dict_get :: "('k \<times> 'v) list \<Rightarrow> 'k \<Rightarrow> 'v \<Rightarrow> 'v" where
  "dict_get d k dflt = (case map_of d k of None \<Rightarrow> dflt | Some v \<Rightarrow> v)"

subsection \<open>Data\<close>

record recipe =
  name :: string
  meal :: string
  diet :: string
  cal :: int
  protein :: int
  carbs :: int
  fat :: int
  ingredients :: "string list"

type_synonym profile = "(string \<times> string) list"

type_synonym day_plan = "(string \<times> recipe) list"

type_synonym plan = "(string \<times> day_plan) list"

definition SAMPLE_RECIPES :: "recipe list" where
  "SAMPLE_RECIPES =
    [\<lparr>name = ''Oatmeal Bowl'', meal = ''Breakfast'', diet = ''vegan'', cal = 320,
      protein = 8, carbs = 45, fat = 9,
      ingredients = [''Oats'', ''Banana'', ''Almond milk'']\<rparr>,
     \<lparr>name = ''Grilled Chicken Salad'', meal = ''Lunch'', diet = ''omnivore'', cal = 420,
      protein = 38, carbs = 18, fat = 20,
      ingredients = [''Chicken'', ''Lettuce'', ''Olive oil'']\<rparr>,
     \<lparr>name = ''Veggie Stir Fry'', meal = ''Dinner'', diet = ''vegetarian'', cal = 400,
      protein = 12, carbs = 55, fat = 14,
      ingredients = [''Rice'', ''Bell pepper'', ''Soy sauce'']\<rparr>,
     \<lparr>name = ''Smoothie'', meal = ''Snack'', diet = ''vegan'', cal = 210,
      protein = 5, carbs = 35, fat = 6,
      ingredients = [''Banana'', ''Spinach'', ''Oats'', ''Almond milk'']\<rparr>,
     \<lparr>name = ''Paneer Wrap'', meal = ''Lunch'', diet = ''vegetarian'', cal = 460,
      protein = 25, carbs = 40, fat = 18,
      ingredients = [''Paneer'', ''Tortilla'', ''Cabbage'']\<rparr>,
     \<lparr>name = ''Egg Scramble'', meal = ''Breakfast'', diet = ''omnivore'', cal = 280,
      protein = 20, carbs = 5, fat = 18,
      ingredients = [''Eggs'', ''Tomato'', ''Spinach'']\<rparr>,
     \<lparr>name = ''Tofu Curry'', meal = ''Dinner'', diet = ''vegan'', cal = 440,
      protein = 22, carbs = 30, fat = 16,
      ingredients = [''Tofu'', ''Coconut milk'', ''Curry paste'']\<rparr>]"

text \<open>
  The fields of the application object that the modelled methods read and write.
  \<open>current_plan\<close> is \<open>None\<close> until \<^verbatim>\<open>show_plan\<close> has set the attribute
  (\<^verbatim>\<open>hasattr(self, "current_plan")\<close> is false).
\<close>

record app =
  profile :: profile
  recipes :: "recipe list"
  current_plan :: "plan option"

text \<open>A message box, with the kind of box and its message (the title is decoration).\<close>

datatype dialog = Showwarning string | Showerror string

datatype py_error = IndexError

subsection \<open>The random source\<close>

text \<open>
  \<^verbatim>\<open>random.choice(seq)\<close> raises \<^verbatim>\<open>IndexError\<close> on an empty sequence and otherwise
  returns \<^verbatim>\<open>seq[i]\<close> for a random index \<open>i\<close> below \<^verbatim>\<open>len(seq)\<close>. The generator is
  the stream \<open>g\<close> of raw draws still to come; a call takes \<open>g 0\<close>, reduces it below
  the length, and leaves the rest of the stream. Every index below the length is the
  outcome of some draw.
\<close>

type_synonym rng = "nat \<Rightarrow> nat"

definition rng_rest :: "rng \<Rightarrow> rng" where
  "rng_rest g = (\<lambda>n. g (Suc n))"

definition random_choice :: "rng \<Rightarrow> 'a list \<Rightarrow> py_error + ('a \<times> rng)" where
  "random_choice g seq =
     (if seq = [] then Inl IndexError else Inr (seq ! (g 0 mod length seq), rng_rest g))"

subsection \<open>Plan generation\<close>

text \<open>
  Line 150: \<^verbatim>\<open>[a.strip().lower() for a in s.split(",") if a.strip()]\<close>.
\<close>

definition parse_allergies :: "string \<Rightarrow> string list" where
  "parse_allergies s = map (\<lambda>a. lower (strip a)) (filter (\<lambda>a. strip a \<noteq> []) (split CHR '','' s))"

text \<open>Line 152: \<^verbatim>\<open>[r for r in recipes if r["diet"] == diet or diet == "omnivore"]\<close>.\<close>

definition diet_filter :: "string \<Rightarrow> recipe list \<Rightarrow> recipe list" where
  "diet_filter d rs = filter (\<lambda>r. diet r = d \<or> d = ''omnivore'') rs"

text \<open>
  Line 154, the condition of the comprehension:
  \<^verbatim>\<open>any(a in (", ".join(r["ingredients"])).lower() for a in allergies)\<close>.
\<close>

definition allergy_hit :: "string list \<Rightarrow> recipe \<Rightarrow> bool" where
  "allergy_hit allergies r = list_ex (\<lambda>a. str_in a (lower (join '', '' (ingredients r)))) allergies"

text \<open>Lines 153-154: the second filter runs only when the token list is non-empty.\<close>

definition allergy_filter :: "string list \<Rightarrow> recipe list \<Rightarrow> recipe list" where
  "allergy_filter allergies filtered =
     (if allergies \<noteq> [] then filter (\<lambda>r. \<not> allergy_hit allergies r) filtered else filtered)"

text \<open>Lines 149-154 together: the value of \<^verbatim>\<open>filtered\<close> that line 156 tests.\<close>

definition filtered_recipes :: "profile \<Rightarrow> recipe list \<Rightarrow> recipe list" where
  "filtered_recipes p rs =
     (let d = dict_get p ''diet_type'' ''omnivore'';
          allergies = parse_allergies (dict_get p ''allergies'' '''')
      in allergy_filter allergies (diet_filter d rs))"

definition meals :: "string list" where
  "meals = [''Breakfast'', ''Lunch'', ''Snack'', ''Dinner'']"

definition day_label :: "nat \<Rightarrow> string" where
  "day_label day = ''Day '' @ str_nat day"

text \<open>
  Lines 165-166, one slot: the recipes tagged with the slot's meal, or the whole
  filtered list when there is none.
\<close>

definition choices :: "recipe list \<Rightarrow> string \<Rightarrow> recipe list" where
  "choices filtered m = filter (\<lambda>r. meal r = m) filtered"

definition choose_slot :: "rng \<Rightarrow> recipe list \<Rightarrow> string \<Rightarrow> py_error + (recipe \<times> rng)" where
  "choose_slot g filtered m =
     (if choices filtered m \<noteq> [] then random_choice g (choices filtered m)
      else random_choice g filtered)"

text \<open>
  Lines 164-166, the inner loop: it fills the dictionary of one day, one slot after
  the other, drawing once per slot.
\<close>

fun fill_day :: "recipe list \<Rightarrow> string list \<Rightarrow> day_plan \<Rightarrow> rng \<Rightarrow> py_error + (day_plan \<times> rng)" where
  "fill_day filtered [] d g = Inr (d, g)"
| "fill_day filtered (m # ms) d g =
     (case choose_slot g filtered m of
        Inl e \<Rightarrow> Inl e
      | Inr (r, g') \<Rightarrow> fill_day filtered ms (dict_set d m r) g')"

text \<open>
  Lines 162-166, the outer loop over \<^verbatim>\<open>range(1, 8)\<close>: each day starts from the empty
  dictionary stored under its label.
\<close>

fun fill_plan :: "recipe list \<Rightarrow> nat list \<Rightarrow> plan \<Rightarrow> rng \<Rightarrow> py_error + (plan \<times> rng)" where
  "fill_plan filtered [] pl g = Inr (pl, g)"
| "fill_plan filtered (day # days) pl g =
     (case fill_day filtered meals [] g of
        Inl e \<Rightarrow> Inl e
      | Inr (d, g') \<Rightarrow> fill_plan filtered days (dict_set pl (day_label day) d) g')"

text \<open>Line 180: \<^verbatim>\<open>show_plan\<close> stores the plan as the current one.\<close>

definition show_plan :: "plan \<Rightarrow> app \<Rightarrow> app" where
  "show_plan pl s = s\<lparr>current_plan := Some pl\<rparr>"

definition missing_info :: dialog where
  "missing_info = Showwarning ''Please save your profile and load recipes first.''"

definition no_recipes :: dialog where
  "no_recipes = Showerror ''No matching recipes found for your preferences!''"

text \<open>
  \<^verbatim>\<open>generate_plan\<close>: the message box shown (if any), the application state and the
  generator afterwards; \<open>Inl\<close> is an exception leaving the method.
\<close>

definition generate_plan :: "rng \<Rightarrow> app \<Rightarrow> py_error + (dialog option \<times> app \<times> rng)" where
  "generate_plan g s =
     (if profile s = [] \<or> recipes s = [] then Inr (Some missing_info, s, g)
      else
        let filtered = filtered_recipes (profile s) (recipes s) in
        if filtered = [] then Inr (Some no_recipes, s, g)
        else (case fill_plan filtered [1..<8] [] g of
                Inl e \<Rightarrow> Inl e
              | Inr (pl, g') \<Rightarrow> Inr (None, show_plan pl s, g')))"

subsection \<open>Shopping list and calorie chart\<close>

definition no_plan_export :: dialog where
  "no_plan_export = Showwarning ''Please generate a meal plan first!''"

definition no_plan_chart :: dialog where
  "no_plan_chart = Showwarning ''Please generate a plan first!''"

text \<open>Lines 188-191: every ingredient of every slot of every day, in plan order.\<close>

fun day_items :: "day_plan \<Rightarrow> string list \<Rightarrow> string list" where
  "day_items [] items = items"
| "day_items ((m, r) # d) items = day_items d (items @ ingredients r)"

fun plan_items :: "plan \<Rightarrow> string list \<Rightarrow> string list" where
  "plan_items [] items = items"
| "plan_items ((day, d) # pl) items = plan_items pl (day_items d items)"

text \<open>
  Line 192, \<^verbatim>\<open>sorted(set(items))\<close>: the distinct items in ascending order. Strings
  compare by code point, lexicographically, a proper prefix first.
\<close>

definition shopping_items :: "plan \<Rightarrow> string list" where
  "shopping_items pl = sort (remdups (plan_items pl []))"

text \<open>
  \<^verbatim>\<open>export_shopping_list\<close> up to line 192: the warning when there is no plan,
  otherwise the list that is written to the chosen file.
\<close>

definition export_shopping_list :: "app \<Rightarrow> dialog + string list" where
  "export_shopping_list s =
     (case current_plan s of
        None \<Rightarrow> Inl no_plan_export
      | Some pl \<Rightarrow> Inr (shopping_items pl))"

text \<open>Lines 210-215: the two parallel lists handed to the bar chart.\<close>

fun chart_loop :: "plan \<Rightarrow> string list \<Rightarrow> int list \<Rightarrow> string list \<times> int list" where
  "chart_loop [] days calories = (days, calories)"
| "chart_loop ((day, d) # pl) days calories =
     (let total = sum_list (map (\<lambda>(m, r). cal r) d)
      in chart_loop pl (days @ [day]) (calories @ [total]))"

definition show_chart :: "app \<Rightarrow> dialog + (string list \<times> int list)" where
  "show_chart s =
     (case current_plan s of
        None \<Rightarrow> Inl no_plan_chart
      | Some pl \<Rightarrow> Inr (chart_loop pl [] []))"

subsection \<open>Well-formed plans\<close>

text \<open>
  The labels that \<^verbatim>\<open>f"Day {day}"\<close> produces for \<^verbatim>\<open>range(1, 8)\<close>, and what it means
  for a plan to be a full week: \<open>plan_7x4\<close> is the shape alone, \<open>plan_ok\<close> adds that
  every slot holds a recipe of the list the slot was drawn from.
\<close>

definition day_labels :: "string list" where
  "day_labels = [''Day 1'', ''Day 2'', ''Day 3'', ''Day 4'', ''Day 5'', ''Day 6'', ''Day 7'']"

definition day_ok :: "recipe list \<Rightarrow> day_plan \<Rightarrow> bool" where
  "day_ok filtered d \<longleftrightarrow>
     map fst d = meals
     \<and> (\<forall>(m, r)\<in>set d. r \<in> set (if choices filtered m \<noteq> [] then choices filtered m else filtered))"

definition plan_ok :: "recipe list \<Rightarrow> plan \<Rightarrow> bool" where
  "plan_ok filtered pl \<longleftrightarrow> map fst pl = day_labels \<and> (\<forall>(l, d)\<in>set pl. day_ok filtered d)"

definition plan_7x4 :: "plan \<Rightarrow> bool" where
  "plan_7x4 pl \<longleftrightarrow> map fst pl = day_labels \<and> list_all (\<lambda>(l, d). map fst d = meals) pl"

text \<open>The recipe stored for a day and a slot in the result of \<^verbatim>\<open>generate_plan\<close>, if any.\<close>

definition plan_slot ::
  "py_error + (dialog option \<times> app \<times> rng) \<Rightarrow> string \<Rightarrow> string \<Rightarrow> recipe option" where
  "plan_slot res l m =
     (case res of
        Inl e \<Rightarrow> None
      | Inr (dlg, s, g) \<Rightarrow>
          (case current_plan s of
             None \<Rightarrow> None
           | Some pl \<Rightarrow> (case map_of pl l of None \<Rightarrow> None | Some d \<Rightarrow> map_of d m)))"

subsection \<open>Fixtures\<close>

text \<open>Concrete profiles and states on which the theorems below are instantiated.\<close>

definition omnivore_profile :: profile where
  "omnivore_profile = [(''name'', ''Ann''), (''diet_type'', ''omnivore''), (''allergies'', '''')]"

definition vegan_profile :: profile where
  "vegan_profile = [(''name'', ''Ann''), (''diet_type'', ''vegan''), (''allergies'', '''')]"

definition nut_profile :: profile where
  "nut_profile = [(''diet_type'', ''omnivore''), (''allergies'', '' Nut '')]"

definition tofu_curry :: recipe where
  "tofu_curry = \<lparr>name = ''Tofu Curry'', meal = ''Dinner'', diet = ''vegan'', cal = 440,
      protein = 22, carbs = 30, fat = 16,
      ingredients = [''Tofu'', ''Coconut milk'', ''Curry paste'']\<rparr>"

definition sample_day :: day_plan where
  "sample_day = zip meals [SAMPLE_RECIPES ! 0, SAMPLE_RECIPES ! 1, SAMPLE_RECIPES ! 3, SAMPLE_RECIPES ! 2]"

definition sample_plan :: plan where
  "sample_plan = map (\<lambda>l. (l, sample_day)) day_labels"

definition vegan_app :: app where
  "vegan_app = \<lparr>profile = vegan_profile, recipes = SAMPLE_RECIPES, current_plan = None\<rparr>"

definition no_match_app :: app where
  "no_match_app =
     \<lparr>profile = [(''diet_type'', ''vegan''), (''allergies'', ''tofu,oats,banana,spinach,almond'')],
      recipes = SAMPLE_RECIPES, current_plan = Some sample_plan\<rparr>"

definition no_profile_app :: app where
  "no_profile_app = \<lparr>profile = [], recipes = SAMPLE_RECIPES, current_plan = Some sample_plan\<rparr>"

definition no_recipes_app :: app where
  "no_recipes_app = \<lparr>profile = vegan_profile, recipes = [], current_plan = Some sample_plan\<rparr>"

definition sample_app :: app where
  "sample_app = \<lparr>profile = omnivore_profile, recipes = SAMPLE_RECIPES, current_plan = Some sample_plan\<rparr>"

definition case_plan :: plan where
  "case_plan = [(''Day 1'', [(''Breakfast'', tofu_curry\<lparr>ingredients := [''oats'', ''Oats'', ''Oats'']\<rparr>)])]"

definition oatmeal_bowl :: recipe where
  "oatmeal_bowl = \<lparr>name = ''Oatmeal Bowl'', meal = ''Breakfast'', diet = ''vegan'', cal = 320,
      protein = 8, carbs = 45, fat = 9,
      ingredients = [''Oats'', ''Banana'', ''Almond milk'']\<rparr>"

definition smoothie :: recipe where
  "smoothie = \<lparr>name = ''Smoothie'', meal = ''Snack'', diet = ''vegan'', cal = 210,
      protein = 5, carbs = 35, fat = 6,
      ingredients = [''Banana'', ''Spinach'', ''Oats'', ''Almond milk'']\<rparr>"

definition pea_nut :: recipe where
  "pea_nut = tofu_curry\<lparr>name := ''Trail Mix'', ingredients := [''Pea'', ''Nut'']\<rparr>"

definition blank_profile :: profile where
  "blank_profile = [(''diet_type'', ''vegan''), (''allergies'', '' , ,'')]"

section \<open>Properties\<close>

subsection \<open>Strings\<close>

lemma starts_with_iff: "starts_with a s \<longleftrightarrow> (\<exists>ss. s = a @ ss)"
  by (induction a s rule: starts_with.induct) auto

lemma str_in_iff: "str_in a s \<longleftrightarrow> (\<exists>ps ss. s = ps @ a @ ss)"
proof (induction s)
  case Nil
  then show ?case by auto
next
  case (Cons c cs)
  have "(\<exists>ps ss. c # cs = ps @ a @ ss) \<longleftrightarrow> (\<exists>ss. c # cs = a @ ss) \<or> (\<exists>ps ss. cs = ps @ a @ ss)"
  proof
    assume "\<exists>ps ss. c # cs = ps @ a @ ss"
    then obtain ps ss where e: "c # cs = ps @ a @ ss" by blast
    show "(\<exists>ss. c # cs = a @ ss) \<or> (\<exists>ps ss. cs = ps @ a @ ss)"
    proof (cases ps)
      case Nil
      with e show ?thesis by auto
    next
      case (Cons q qs)
      with e have "cs = qs @ a @ ss" by simp
      then show ?thesis by blast
    qed
  next
    assume "(\<exists>ss. c # cs = a @ ss) \<or> (\<exists>ps ss. cs = ps @ a @ ss)"
    then show "\<exists>ps ss. c # cs = ps @ a @ ss"
    proof
      assume "\<exists>ss. c # cs = a @ ss"
      then obtain ss where "c # cs = [] @ a @ ss" by auto
      then show ?thesis by blast
    next
      assume "\<exists>ps ss. cs = ps @ a @ ss"
      then obtain ps ss where "c # cs = (c # ps) @ a @ ss" by auto
      then show ?thesis by blast
    qed
  qed
  with Cons show ?case by (simp add: starts_with_iff)
qed

lemma split_not_Nil: "split sep s \<noteq> []"
  by (induction s) (auto split: list.splits)

lemma split_chars: "w \<in> set (split sep s) \<Longrightarrow> set w \<subseteq> set s - {sep}"
proof (induction s arbitrary: w)
  case Nil
  then show ?case by simp
next
  case (Cons c cs)
  show ?case
  proof (cases "c = sep")
    case True
    with Cons.prems have "w = [] \<or> w \<in> set (split sep cs)" by auto
    with Cons.IH show ?thesis by auto
  next
    case False
    obtain v vs where sp: "split sep cs = v # vs"
      using split_not_Nil [of sep cs] by (cases "split sep cs") auto
    with False Cons.prems have "w = c # v \<or> w \<in> set vs" by auto
    moreover have "set v \<subseteq> set cs - {sep}" using Cons.IH [of v] sp by simp
    moreover have "w \<in> set vs \<Longrightarrow> set w \<subseteq> set cs - {sep}" using Cons.IH [of w] sp by simp
    ultimately show ?thesis using False by auto
  qed
qed

lemma strip_blank: "\<forall>c\<in>set w. is_space c \<Longrightarrow> strip w = []"
proof -
  assume "\<forall>c\<in>set w. is_space c"
  then have d: "dropWhile is_space w = []" by simp
  show ?thesis unfolding strip_def d by simp
qed

lemma parse_allergies_blank:
  assumes "\<forall>c\<in>set s. c = CHR '','' \<or> is_space c"
  shows "parse_allergies s = []"
proof -
  have "strip w = []" if "w \<in> set (split CHR '','' s)" for w
  proof -
    from that have "set w \<subseteq> set s - {CHR '',''}" by (rule split_chars)
    with assms have "\<forall>c\<in>set w. is_space c" by auto
    then show ?thesis by (rule strip_blank)
  qed
  then have "filter (\<lambda>a. strip a \<noteq> []) (split CHR '','' s) = []"
    by (simp add: filter_empty_conv)
  then show ?thesis by (simp add: parse_allergies_def)
qed

lemma lower_append: "lower (xs @ ys) = lower xs @ lower ys"
  by (simp add: lower_def)

lemma str_in_lower: "str_in a s \<Longrightarrow> str_in (lower a) (lower s)"
proof -
  assume "str_in a s"
  then obtain ps ss where "s = ps @ a @ ss" by (auto simp: str_in_iff)
  then have "lower s = lower ps @ lower a @ lower ss" by (simp add: lower_append)
  then show ?thesis unfolding str_in_iff by blast
qed

lemma of_char_lower_char:
  "of_char (lower_char c) =
     (let n = (of_char c :: nat)
      in if (65 \<le> n \<and> n \<le> 90) \<or> (192 \<le> n \<and> n \<le> 222 \<and> n \<noteq> 215) then n + 32 else n)"
  by (simp add: lower_char_def Let_def)

lemma lower_char_idem: "lower_char (lower_char c) = lower_char c"
proof -
  have "(of_char (lower_char (lower_char c)) :: nat) = of_char (lower_char c)"
    by (simp add: of_char_lower_char Let_def)
  then show ?thesis by (simp only: of_char_eq_iff)
qed

lemma is_space_lower_char: "is_space (lower_char c) = is_space c"
  by (auto simp add: is_space_def of_char_lower_char Let_def)

lemma lower_char_comma: "lower_char c = CHR '','' \<longleftrightarrow> c = CHR '',''"
proof -
  have "lower_char c = CHR '','' \<longleftrightarrow> (of_char (lower_char c) :: nat) = of_char CHR '',''"
    by (simp only: of_char_eq_iff)
  also have "\<dots> \<longleftrightarrow> (of_char c :: nat) = of_char CHR '',''"
    by (auto simp add: of_char_lower_char Let_def)
  also have "\<dots> \<longleftrightarrow> c = CHR '',''"
    by (simp only: of_char_eq_iff)
  finally show ?thesis .
qed

lemma lower_idem: "lower (lower s) = lower s"
  by (simp add: lower_def lower_char_idem)

lemma last_dropWhile_eq: "dropWhile P xs \<noteq> [] \<Longrightarrow> last (dropWhile P xs) = last xs"
proof -
  assume n: "dropWhile P xs \<noteq> []"
  have "last xs = last (takeWhile P xs @ dropWhile P xs)" by simp
  also have "\<dots> = last (dropWhile P xs)" using n by (simp only: last_append if_False)
  finally show ?thesis by simp
qed

lemma strip_ends:
  assumes "strip w \<noteq> []"
  shows "\<not> is_space (hd (strip w)) \<and> \<not> is_space (last (strip w))"
proof -
  define u where "u = dropWhile is_space w"
  define v where "v = dropWhile is_space (rev u)"
  have s: "strip w = rev v" by (simp add: strip_def u_def v_def)
  with assms have v: "v \<noteq> []" by simp
  then have ru: "rev u \<noteq> []" by (auto simp: v_def)
  then have u: "u \<noteq> []" by simp
  have "\<not> is_space (hd v)" using v unfolding v_def by (rule hd_dropWhile)
  then have l: "\<not> is_space (last (strip w))" using v by (simp add: s last_rev)
  have "last v = last (rev u)" using v unfolding v_def by (rule last_dropWhile_eq)
  also have "\<dots> = hd u" using u by (simp add: last_rev)
  finally have "hd (strip w) = hd u" using v by (simp add: s hd_rev)
  moreover have "\<not> is_space (hd u)" using u unfolding u_def by (rule hd_dropWhile)
  ultimately show ?thesis using l by simp
qed

lemma set_strip: "set (strip w) \<subseteq> set w"
proof
  fix x
  assume "x \<in> set (strip w)"
  then have "x \<in> set (dropWhile is_space (rev (dropWhile is_space w)))"
    by (simp add: strip_def)
  then have "x \<in> set (rev (dropWhile is_space w))" by (rule set_dropWhileD)
  then have "x \<in> set (dropWhile is_space w)" by simp
  then show "x \<in> set w" by (rule set_dropWhileD)
qed

lemma parse_allergies_token:
  assumes "t \<in> set (parse_allergies s)"
  shows "t \<noteq> [] \<and> CHR '','' \<notin> set t \<and> \<not> is_space (hd t) \<and> \<not> is_space (last t) \<and> lower t = t"
proof -
  from assms obtain a where a: "a \<in> set (split CHR '','' s)" "strip a \<noteq> []" "t = lower (strip a)"
    by (auto simp: parse_allergies_def)
  have "set (strip a) \<subseteq> set a" by (rule set_strip)
  moreover have "set a \<subseteq> set s - {CHR '',''}" using a(1) by (rule split_chars)
  ultimately have "CHR '','' \<notin> set (strip a)" by auto
  then have c: "CHR '','' \<notin> set t"
    by (simp add: a(3) lower_def image_iff lower_char_comma [symmetric]) (metis lower_char_comma)
  have e: "\<not> is_space (hd (strip a)) \<and> \<not> is_space (last (strip a))" using a(2) by (rule strip_ends)
  have "hd t = lower_char (hd (strip a))" using a(2) by (simp add: a(3) lower_def hd_map)
  moreover have "last t = lower_char (last (strip a))" using a(2) by (simp add: a(3) lower_def last_map)
  ultimately have "\<not> is_space (hd t) \<and> \<not> is_space (last t)" using e by (simp add: is_space_lower_char)
  moreover have "t \<noteq> []" using a(2) by (simp add: a(3) lower_def)
  moreover have "lower t = t" by (simp add: a(3) lower_idem)
  ultimately show ?thesis using c by simp
qed

subsection \<open>The two filters\<close>

lemma filtered_recipes_unfold:
  "filtered_recipes p rs =
     allergy_filter (parse_allergies (dict_get p ''allergies'' ''''))
       (diet_filter (dict_get p ''diet_type'' ''omnivore'') rs)"
  by (simp add: filtered_recipes_def Let_def)

lemma set_allergy_filter: "set (allergy_filter as fs) \<subseteq> set fs"
  by (auto simp: allergy_filter_def)

lemma allergy_hit_iff:
  "allergy_hit as r \<longleftrightarrow> (\<exists>a\<in>set as. str_in a (lower (join '', '' (ingredients r))))"
  by (simp add: allergy_hit_def list_ex_iff)

text \<open>
  Claim C1. The diet filter of \<^verbatim>\<open>generate_plan\<close> keeps exactly the recipes whose diet
  tag equals the profile's diet type, or all of them when the diet type is
  \<^verbatim>\<open>"omnivore"\<close>. The diet type is read with \<^verbatim>\<open>profile.get("diet_type", "omnivore")\<close>.
  For an omnivore profile the diet-filtered list is the whole catalog; for a vegan
  profile every recipe of the diet-filtered list, and so of the final filtered list,
  is tagged vegan.
\<close>

theorem diet_filter_correct:
  "filtered_recipes p rs =
     allergy_filter (parse_allergies (dict_get p ''allergies'' ''''))
       (diet_filter (dict_get p ''diet_type'' ''omnivore'') rs)
   \<and> diet_filter (dict_get p ''diet_type'' ''omnivore'') rs =
       filter (\<lambda>r. diet r = dict_get p ''diet_type'' ''omnivore''
                    \<or> dict_get p ''diet_type'' ''omnivore'' = ''omnivore'') rs
   \<and> (\<forall>r. r \<in> set (diet_filter (dict_get p ''diet_type'' ''omnivore'') rs) \<longleftrightarrow>
          r \<in> set rs \<and> (diet r = dict_get p ''diet_type'' ''omnivore''
                          \<or> dict_get p ''diet_type'' ''omnivore'' = ''omnivore''))
   \<and> (dict_get p ''diet_type'' ''omnivore'' = ''omnivore'' \<longrightarrow>
          diet_filter (dict_get p ''diet_type'' ''omnivore'') rs = rs)
   \<and> (dict_get p ''diet_type'' ''omnivore'' = ''vegan'' \<longrightarrow>
          (\<forall>r\<in>set (diet_filter (dict_get p ''diet_type'' ''omnivore'') rs). diet r = ''vegan'')
          \<and> (\<forall>r\<in>set (filtered_recipes p rs). diet r = ''vegan''))"
proof -
  define d where "d = dict_get p ''diet_type'' ''omnivore''"
  have a: "filtered_recipes p rs =
      allergy_filter (parse_allergies (dict_get p ''allergies'' '''')) (diet_filter d rs)"
    unfolding d_def by (rule filtered_recipes_unfold)
  have b: "diet_filter d rs = filter (\<lambda>r. diet r = d \<or> d = ''omnivore'') rs"
    by (simp add: diet_filter_def)
  have c: "\<forall>r. r \<in> set (diet_filter d rs) \<longleftrightarrow> r \<in> set rs \<and> (diet r = d \<or> d = ''omnivore'')"
    by (simp add: b)
  have e: "d = ''omnivore'' \<longrightarrow> diet_filter d rs = rs"
    by (simp add: diet_filter_def)
  have f: "d = ''vegan'' \<longrightarrow> (\<forall>r\<in>set (diet_filter d rs). diet r = ''vegan'')"
    by (simp add: diet_filter_def)
  have "set (filtered_recipes p rs) \<subseteq> set (diet_filter d rs)"
    unfolding a by (rule set_allergy_filter)
  with f have g: "d = ''vegan'' \<longrightarrow> (\<forall>r\<in>set (filtered_recipes p rs). diet r = ''vegan'')"
    by blast
  from a b c e f g show ?thesis unfolding d_def by blast
qed

theorem diet_filter_correct_witness:
  "dict_get omnivore_profile ''diet_type'' ''omnivore'' = ''omnivore''
   \<and> diet_filter ''omnivore'' SAMPLE_RECIPES = SAMPLE_RECIPES
   \<and> dict_get vegan_profile ''diet_type'' ''omnivore'' = ''vegan''
   \<and> list_all (\<lambda>r. diet r = ''vegan'') (filtered_recipes vegan_profile SAMPLE_RECIPES)"
proof -
  have o: "dict_get omnivore_profile ''diet_type'' ''omnivore'' = ''omnivore''"
    by (simp add: dict_get_def omnivore_profile_def)
  have v: "dict_get vegan_profile ''diet_type'' ''omnivore'' = ''vegan''"
    by (simp add: dict_get_def vegan_profile_def)
  from diet_filter_correct [of omnivore_profile SAMPLE_RECIPES] o
  have 1: "diet_filter ''omnivore'' SAMPLE_RECIPES = SAMPLE_RECIPES" by simp
  from diet_filter_correct [of vegan_profile SAMPLE_RECIPES] v
  have 2: "list_all (\<lambda>r. diet r = ''vegan'') (filtered_recipes vegan_profile SAMPLE_RECIPES)"
    unfolding list_all_iff by blast
  from o v 1 2 show ?thesis by simp
qed

text \<open>
  Claim C2. When the parsed allergy token list is non-empty, no recipe of the
  filtered list has a token as a substring of its ingredients, joined and
  lower-cased. The match ignores case: a catalog recipe whose joined ingredients
  contain any spelling \<open>v\<close> of a raw token (equal to it after lower-casing) is
  dropped. The witness is the token \<^verbatim>\<open>" Nut "\<close>, which rejects the recipe with
  \<^verbatim>\<open>"Coconut milk"\<close>.
\<close>

theorem allergy_filter_correct:
  assumes "parse_allergies (dict_get p ''allergies'' '''') \<noteq> []"
  shows "(\<forall>r\<in>set (filtered_recipes p rs). \<forall>a\<in>set (parse_allergies (dict_get p ''allergies'' '''')).
            \<not> str_in a (lower (join '', '' (ingredients r)))
            \<and> (\<forall>ps ss. lower (join '', '' (ingredients r)) \<noteq> ps @ a @ ss))
       \<and> (\<forall>r\<in>set rs. \<forall>u\<in>set (split CHR '','' (dict_get p ''allergies'' '''')). \<forall>v.
            strip u \<noteq> [] \<and> lower v = lower (strip u) \<and> str_in v (join '', '' (ingredients r))
            \<longrightarrow> r \<notin> set (filtered_recipes p rs))"
proof -
  define as where "as = parse_allergies (dict_get p ''allergies'' '''')"
  define fs where "fs = diet_filter (dict_get p ''diet_type'' ''omnivore'') rs"
  have "filtered_recipes p rs = allergy_filter as fs"
    unfolding as_def fs_def by (rule filtered_recipes_unfold)
  with assms have fr: "filtered_recipes p rs = filter (\<lambda>r. \<not> allergy_hit as r) fs"
    by (simp add: allergy_filter_def as_def)
  have 1: "\<not> str_in a (lower (join '', '' (ingredients r)))"
    if "r \<in> set (filtered_recipes p rs)" "a \<in> set as" for r a
    using that by (auto simp: fr allergy_hit_iff)
  have 2: "r \<notin> set (filtered_recipes p rs)"
    if u: "u \<in> set (split CHR '','' (dict_get p ''allergies'' ''''))" "strip u \<noteq> []"
      and v: "lower v = lower (strip u)" "str_in v (join '', '' (ingredients r))" for r u v
  proof
    assume r: "r \<in> set (filtered_recipes p rs)"
    from u have "lower (strip u) \<in> set as" by (auto simp: as_def parse_allergies_def)
    with r have "\<not> str_in (lower (strip u)) (lower (join '', '' (ingredients r)))" by (rule 1)
    moreover from v(2) have "str_in (lower v) (lower (join '', '' (ingredients r)))"
      by (rule str_in_lower)
    ultimately show False by (simp add: v(1))
  qed
  from 1 have 3: "\<forall>r\<in>set (filtered_recipes p rs). \<forall>a\<in>set as.
            \<not> str_in a (lower (join '', '' (ingredients r)))
            \<and> (\<forall>ps ss. lower (join '', '' (ingredients r)) \<noteq> ps @ a @ ss)"
    by (auto simp: str_in_iff)
  from 2 have 4: "\<forall>r\<in>set rs. \<forall>u\<in>set (split CHR '','' (dict_get p ''allergies'' '''')). \<forall>v.
            strip u \<noteq> [] \<and> lower v = lower (strip u) \<and> str_in v (join '', '' (ingredients r))
            \<longrightarrow> r \<notin> set (filtered_recipes p rs)"
    by blast
  from 3 4 show ?thesis unfolding as_def by (rule conjI)
qed

theorem allergy_filter_correct_witness:
  "parse_allergies (dict_get nut_profile ''allergies'' '''') = [''nut'']
   \<and> tofu_curry \<in> set SAMPLE_RECIPES
   \<and> str_in ''nut'' (join '', '' (ingredients tofu_curry))
   \<and> tofu_curry \<notin> set (filtered_recipes nut_profile SAMPLE_RECIPES)"
proof -
  have t: "parse_allergies (dict_get nut_profile ''allergies'' '''') = [''nut'']"
    by code_simp
  have m: "tofu_curry \<in> set SAMPLE_RECIPES"
    by (simp add: tofu_curry_def SAMPLE_RECIPES_def)
  have u: "'' Nut '' \<in> set (split CHR '','' (dict_get nut_profile ''allergies'' ''''))"
    by code_simp
  have h: "str_in ''nut'' (join '', '' (ingredients tofu_curry))"
    by code_simp
  have k: "strip '' Nut '' \<noteq> [] \<and> lower ''nut'' = lower (strip '' Nut '')"
    by code_simp
  have n: "parse_allergies (dict_get nut_profile ''allergies'' '''') \<noteq> []"
    by (simp add: t)
  have "\<forall>r\<in>set SAMPLE_RECIPES.
          \<forall>u\<in>set (split CHR '','' (dict_get nut_profile ''allergies'' '''')). \<forall>v.
            strip u \<noteq> [] \<and> lower v = lower (strip u) \<and> str_in v (join '', '' (ingredients r))
            \<longrightarrow> r \<notin> set (filtered_recipes nut_profile SAMPLE_RECIPES)"
    using allergy_filter_correct [OF n, of SAMPLE_RECIPES] by (rule conjunct2)
  with m u h k have "tofu_curry \<notin> set (filtered_recipes nut_profile SAMPLE_RECIPES)"
    by blast
  with t m h show ?thesis by simp
qed

subsection \<open>Plan generation\<close>

lemma dict_set_fresh: "k \<notin> fst ` set d \<Longrightarrow> dict_set d k v = d @ [(k, v)]"
  by (induction d) auto

lemma day_labels_eval:
  "map day_label [1..<8] =
     [''Day 1'', ''Day 2'', ''Day 3'', ''Day 4'', ''Day 5'', ''Day 6'', ''Day 7'']"
  by code_simp

lemma random_choice_mem:
  assumes "seq \<noteq> []"
  shows "\<exists>x. random_choice g seq = Inr (x, rng_rest g) \<and> x \<in> set seq"
proof -
  have "g 0 mod length seq < length seq" using assms by simp
  then have "seq ! (g 0 mod length seq) \<in> set seq" by (rule nth_mem)
  with assms show ?thesis by (simp add: random_choice_def)
qed

lemma choose_slot_mem:
  assumes "filtered \<noteq> []"
  shows "\<exists>r. choose_slot g filtered m = Inr (r, rng_rest g)
           \<and> r \<in> set (if choices filtered m \<noteq> [] then choices filtered m else filtered)"
proof (cases "choices filtered m = []")
  case True
  with random_choice_mem [OF assms, of g] show ?thesis by (simp add: choose_slot_def)
next
  case False
  with random_choice_mem [OF False, of g] show ?thesis by (simp add: choose_slot_def)
qed

lemma fill_day_ok:
  assumes "filtered \<noteq> []" "distinct ms" "set ms \<inter> fst ` set d = {}"
  shows "\<exists>d' g'. fill_day filtered ms d g = Inr (d @ d', g') \<and> map fst d' = ms
           \<and> (\<forall>(m, r)\<in>set d'. r \<in> set (if choices filtered m \<noteq> [] then choices filtered m else filtered))"
  using assms(2,3)
proof (induction ms arbitrary: d g)
  case Nil
  then show ?case by simp
next
  case (Cons m ms)
  from choose_slot_mem [OF assms(1), of g m] obtain r where
    r: "choose_slot g filtered m = Inr (r, rng_rest g)"
       "r \<in> set (if choices filtered m \<noteq> [] then choices filtered m else filtered)"
    by blast
  from Cons.prems have fresh: "m \<notin> fst ` set d" by auto
  then have ds: "dict_set d m r = d @ [(m, r)]" by (rule dict_set_fresh)
  from Cons.prems have "distinct ms" "set ms \<inter> fst ` set (d @ [(m, r)]) = {}" by auto
  from Cons.IH [OF this, of "rng_rest g"] obtain d' g' where
    ih: "fill_day filtered ms (d @ [(m, r)]) (rng_rest g) = Inr ((d @ [(m, r)]) @ d', g')"
        "map fst d' = ms"
        "\<forall>(m, r)\<in>set d'. r \<in> set (if choices filtered m \<noteq> [] then choices filtered m else filtered)"
    by blast
  have "fill_day filtered (m # ms) d g = Inr (d @ ((m, r) # d'), g')
      \<and> map fst ((m, r) # d') = m # ms
      \<and> (\<forall>(m, r)\<in>set ((m, r) # d').
            r \<in> set (if choices filtered m \<noteq> [] then choices filtered m else filtered))"
    using r(2) ih(3) by (simp add: r(1) ds ih(1) ih(2))
  then show ?case by - (rule exI [where x = "(m, r) # d'"], rule exI [where x = g'])
qed

lemma fill_day_meals:
  assumes "filtered \<noteq> []"
  shows "\<exists>d g'. fill_day filtered meals [] g = Inr (d, g') \<and> day_ok filtered d"
proof -
  have "distinct meals" "set meals \<inter> fst ` set ([] :: day_plan) = {}"
    by (simp_all add: meals_def)
  from fill_day_ok [OF assms this, of g] show ?thesis by (auto simp: day_ok_def)
qed

lemma fill_plan_ok:
  assumes "filtered \<noteq> []" "distinct (map day_label days)"
    "set (map day_label days) \<inter> fst ` set pl = {}"
  shows "\<exists>pl' g'. fill_plan filtered days pl g = Inr (pl @ pl', g')
           \<and> map fst pl' = map day_label days
           \<and> (\<forall>(l, d)\<in>set pl'. day_ok filtered d)"
  using assms(2,3)
proof (induction days arbitrary: pl g)
  case Nil
  then show ?case by simp
next
  case (Cons day days)
  from fill_day_meals [OF assms(1), of g] obtain d g1 where
    d: "fill_day filtered meals [] g = Inr (d, g1)" "day_ok filtered d"
    by blast
  from Cons.prems have "day_label day \<notin> fst ` set pl" by auto
  then have ds: "dict_set pl (day_label day) d = pl @ [(day_label day, d)]"
    by (rule dict_set_fresh)
  from Cons.prems have "distinct (map day_label days)"
    "set (map day_label days) \<inter> fst ` set (pl @ [(day_label day, d)]) = {}" by auto
  from Cons.IH [OF this, of g1] obtain pl' g' where
    ih: "fill_plan filtered days (pl @ [(day_label day, d)]) g1
           = Inr ((pl @ [(day_label day, d)]) @ pl', g')"
        "map fst pl' = map day_label days"
        "\<forall>(l, d)\<in>set pl'. day_ok filtered d"
    by blast
  have "fill_plan filtered (day # days) pl g = Inr (pl @ ((day_label day, d) # pl'), g')
      \<and> map fst ((day_label day, d) # pl') = map day_label (day # days)
      \<and> (\<forall>(l, d)\<in>set ((day_label day, d) # pl'). day_ok filtered d)"
    using d(2) ih(3) by (simp add: d(1) ds ih(1) ih(2))
  then show ?case by blast
qed

lemma fill_plan_week:
  assumes "filtered \<noteq> []"
  shows "\<exists>pl g'. fill_plan filtered [1..<8] [] g = Inr (pl, g') \<and> plan_ok filtered pl"
proof -
  have "distinct (map day_label [1..<8])"
    "set (map day_label [1..<8]) \<inter> fst ` set ([] :: plan) = {}"
    unfolding day_labels_eval by simp_all
  from fill_plan_ok [OF assms this, of g] obtain pl g' where
    a: "fill_plan filtered [1..<8] [] g = Inr ([] @ pl, g')"
       "map fst pl = map day_label [1..<8]"
       "\<forall>(l, d)\<in>set pl. day_ok filtered d"
    by blast
  from a(1) have "fill_plan filtered [1..<8] [] g = Inr (pl, g')" by (simp only: append_Nil)
  moreover from a(2,3) have "plan_ok filtered pl"
    unfolding plan_ok_def day_labels_def day_labels_eval by (rule conjI)
  ultimately show ?thesis by blast
qed

lemma generate_plan_cases:
  "(profile s = [] \<or> recipes s = []) \<and> generate_plan g s = Inr (Some missing_info, s, g)
   \<or> profile s \<noteq> [] \<and> recipes s \<noteq> [] \<and> filtered_recipes (profile s) (recipes s) = []
       \<and> generate_plan g s = Inr (Some no_recipes, s, g)
   \<or> profile s \<noteq> [] \<and> recipes s \<noteq> [] \<and> filtered_recipes (profile s) (recipes s) \<noteq> []
       \<and> (\<exists>pl g'. generate_plan g s = Inr (None, s\<lparr>current_plan := Some pl\<rparr>, g')
             \<and> plan_ok (filtered_recipes (profile s) (recipes s)) pl)"
proof -
  consider "profile s = [] \<or> recipes s = []"
    | "profile s \<noteq> []" "recipes s \<noteq> []" "filtered_recipes (profile s) (recipes s) = []"
    | "profile s \<noteq> []" "recipes s \<noteq> []" "filtered_recipes (profile s) (recipes s) \<noteq> []"
    by blast
  then show ?thesis
  proof cases
    case 1
    then show ?thesis by (auto simp: generate_plan_def)
  next
    case 2
    then show ?thesis by (simp add: generate_plan_def)
  next
    case 3
    from fill_plan_week [OF 3(3), of g] obtain pl g' where
      "fill_plan (filtered_recipes (profile s) (recipes s)) [1..<8] [] g = Inr (pl, g')"
      "plan_ok (filtered_recipes (profile s) (recipes s)) pl" by blast
    with 3 show ?thesis by (auto simp: generate_plan_def show_plan_def)
  qed
qed

lemma filtered_recipes_empty_profile: "filtered_recipes [] rs = rs"
  by (simp add: filtered_recipes_def dict_get_def parse_allergies_def strip_def
      allergy_filter_def diet_filter_def)

lemma day_ok_filtered:
  assumes "day_ok filtered d" "(m, r) \<in> set d"
  shows "r \<in> set filtered \<and> (meal r = m \<or> choices filtered m = [])"
proof -
  from assms have "r \<in> set (if choices filtered m \<noteq> [] then choices filtered m else filtered)"
    by (auto simp: day_ok_def)
  then show ?thesis by (auto simp: choices_def split: if_splits)
qed

lemma day_ok_lookup:
  assumes "day_ok filtered d" "m \<in> set meals"
  shows "\<exists>r. map_of d m = Some r
           \<and> r \<in> set (if choices filtered m \<noteq> [] then choices filtered m else filtered)"
proof -
  from assms have k: "map fst d = meals" by (simp add: day_ok_def)
  with assms(2) have "m \<in> fst ` set d" by (metis set_map)
  then obtain r where r: "(m, r) \<in> set d" by auto
  have "distinct (map fst d)" unfolding k by (simp add: meals_def)
  from this r have "map_of d m = Some r" by (rule map_of_is_SomeI)
  moreover from assms(1) r
  have "r \<in> set (if choices filtered m \<noteq> [] then choices filtered m else filtered)"
    by (auto simp: day_ok_def)
  ultimately show ?thesis by blast
qed

lemma plan_ok_lookup:
  assumes "plan_ok filtered pl" "l \<in> set day_labels"
  shows "\<exists>d. map_of pl l = Some d \<and> day_ok filtered d"
proof -
  from assms have k: "map fst pl = day_labels" by (simp add: plan_ok_def)
  with assms(2) have "l \<in> fst ` set pl" by (metis set_map)
  then obtain d where d: "(l, d) \<in> set pl" by auto
  have "distinct (map fst pl)" unfolding k by (simp add: day_labels_def)
  from this d have "map_of pl l = Some d" by (rule map_of_is_SomeI)
  moreover from assms(1) d have "day_ok filtered d" by (auto simp: plan_ok_def)
  ultimately show ?thesis by blast
qed

lemma filtered_recipes_Nil: "filtered_recipes p [] = []"
  by (simp add: filtered_recipes_def allergy_filter_def diet_filter_def Let_def)

lemma plan_ok_shape:
  assumes "plan_ok fs pl"
  shows "map fst pl = day_labels
     \<and> (\<forall>(l, d)\<in>set pl. map fst d = meals \<and> (\<forall>(m, r)\<in>set d. r \<in> set fs))"
proof -
  from assms have k: "map fst pl = day_labels" by (simp add: plan_ok_def)
  have "map fst (snd x) = meals \<and> (\<forall>y\<in>set (snd x). snd y \<in> set fs)"
    if x: "x \<in> set pl" for x
  proof -
    from assms x have d: "day_ok fs (snd x)"
      by (auto simp: plan_ok_def)
    then have "map fst (snd x) = meals" by (simp add: day_ok_def)
    moreover have "snd y \<in> set fs" if "y \<in> set (snd x)" for y
      using day_ok_filtered [OF d, of "fst y" "snd y"] that by simp
    ultimately show ?thesis by blast
  qed
  with k show ?thesis by (simp add: case_prod_beta)
qed

lemma generate_plan_never_raises: "generate_plan g s \<noteq> Inl e"
proof -
  from generate_plan_cases [of s g] consider
    "generate_plan g s = Inr (Some missing_info, s, g)"
    | "generate_plan g s = Inr (Some no_recipes, s, g)"
    | pl g1 where "generate_plan g s = Inr (None, s\<lparr>current_plan := Some pl\<rparr>, g1)"
    by blast
  then show ?thesis by cases simp_all
qed

lemma generate_plan_success:
  assumes "profile s \<noteq> []" "filtered_recipes (profile s) (recipes s) \<noteq> []"
  shows "\<exists>pl g'. generate_plan g s = Inr (None, s\<lparr>current_plan := Some pl\<rparr>, g')
           \<and> plan_ok (filtered_recipes (profile s) (recipes s)) pl"
proof -
  from assms(2) have "recipes s \<noteq> []"
    using filtered_recipes_Nil [of "profile s"] by auto
  with assms generate_plan_cases [of s g] show ?thesis by simp
qed

lemma generate_plan_result:
  assumes "generate_plan g s = Inr (dlg, s', g')"
  shows "(dlg \<noteq> None \<and> s' = s)
      \<or> (dlg = None \<and> (\<exists>pl. s' = s\<lparr>current_plan := Some pl\<rparr>
            \<and> plan_ok (filtered_recipes (profile s) (recipes s)) pl))"
proof -
  from generate_plan_cases [of s g] consider
    "generate_plan g s = Inr (Some missing_info, s, g)"
    | "generate_plan g s = Inr (Some no_recipes, s, g)"
    | pl g1 where "generate_plan g s = Inr (None, s\<lparr>current_plan := Some pl\<rparr>, g1)"
        "plan_ok (filtered_recipes (profile s) (recipes s)) pl"
    by blast
  then show ?thesis
  proof cases
    case 1
    with assms have "dlg = Some missing_info \<and> s' = s" by simp
    then show ?thesis by simp
  next
    case 2
    with assms have "dlg = Some no_recipes \<and> s' = s" by simp
    then show ?thesis by simp
  next
    case 3
    from assms 3(1) have "dlg = None \<and> s' = s\<lparr>current_plan := Some pl\<rparr>" by simp
    with 3(2) show ?thesis by blast
  qed
qed

text \<open>
  Claim C3. The filtered set is the value of \<^verbatim>\<open>filtered\<close> that line 156 tests: the
  method has passed the check of line 145, so the profile is not empty. Whenever
  that set is non-empty, \<^verbatim>\<open>generate_plan\<close> raises nothing, shows no message box and
  stores a plan whose keys are \<^verbatim>\<open>Day 1\<close> .. \<^verbatim>\<open>Day 7\<close> in this order, each day having
  the keys Breakfast, Lunch, Snack, Dinner in this order, each slot holding a recipe
  of the filtered set. No partial plan is ever produced: on every input the method
  returns normally, and either shows a message box and leaves the state as it was,
  or stores a plan of that full shape.
\<close>

theorem plan_shape_invariant:
  "(profile s \<noteq> [] \<and> filtered_recipes (profile s) (recipes s) \<noteq> [] \<longrightarrow>
      (\<exists>pl g'. generate_plan g s = Inr (None, s\<lparr>current_plan := Some pl\<rparr>, g')
         \<and> map fst pl = [''Day 1'', ''Day 2'', ''Day 3'', ''Day 4'', ''Day 5'', ''Day 6'', ''Day 7'']
         \<and> (\<forall>(l, d)\<in>set pl.
               map fst d = [''Breakfast'', ''Lunch'', ''Snack'', ''Dinner'']
               \<and> (\<forall>(m, r)\<in>set d. r \<in> set (filtered_recipes (profile s) (recipes s))))))
   \<and> (\<forall>e. generate_plan g s \<noteq> Inl e)
   \<and> (\<forall>dlg s' g'. generate_plan g s = Inr (dlg, s', g') \<longrightarrow>
         (dlg \<noteq> None \<and> s' = s)
         \<or> (dlg = None \<and> (\<exists>pl. s' = s\<lparr>current_plan := Some pl\<rparr>
               \<and> map fst pl = [''Day 1'', ''Day 2'', ''Day 3'', ''Day 4'', ''Day 5'', ''Day 6'', ''Day 7'']
               \<and> (\<forall>(l, d)\<in>set pl. map fst d = [''Breakfast'', ''Lunch'', ''Snack'', ''Dinner'']))))"
proof -
  define fs where "fs = filtered_recipes (profile s) (recipes s)"
  have 1: "profile s \<noteq> [] \<and> fs \<noteq> [] \<longrightarrow>
      (\<exists>pl g'. generate_plan g s = Inr (None, s\<lparr>current_plan := Some pl\<rparr>, g')
         \<and> map fst pl = day_labels
         \<and> (\<forall>(l, d)\<in>set pl. map fst d = meals \<and> (\<forall>(m, r)\<in>set d. r \<in> set fs)))"
  proof
    assume a: "profile s \<noteq> [] \<and> fs \<noteq> []"
    then obtain pl g' where
      p: "generate_plan g s = Inr (None, s\<lparr>current_plan := Some pl\<rparr>, g')" "plan_ok fs pl"
      using generate_plan_success [of s g] unfolding fs_def by blast
    from p(1) plan_ok_shape [OF p(2)]
    have "generate_plan g s = Inr (None, s\<lparr>current_plan := Some pl\<rparr>, g')
         \<and> map fst pl = day_labels
         \<and> (\<forall>(l, d)\<in>set pl. map fst d = meals \<and> (\<forall>(m, r)\<in>set d. r \<in> set fs))"
      by (rule conjI)
    then show "\<exists>pl g'. generate_plan g s = Inr (None, s\<lparr>current_plan := Some pl\<rparr>, g')
         \<and> map fst pl = day_labels
         \<and> (\<forall>(l, d)\<in>set pl. map fst d = meals \<and> (\<forall>(m, r)\<in>set d. r \<in> set fs))"
      by - (rule exI [where x = pl], rule exI [where x = g'])
  qed
  have 2: "\<forall>e. generate_plan g s \<noteq> Inl e"
    by (rule allI) (rule generate_plan_never_raises)
  have 3: "\<forall>dlg s' g'. generate_plan g s = Inr (dlg, s', g') \<longrightarrow>
         (dlg \<noteq> None \<and> s' = s)
         \<or> (dlg = None \<and> (\<exists>pl. s' = s\<lparr>current_plan := Some pl\<rparr>
               \<and> map fst pl = day_labels
               \<and> (\<forall>(l, d)\<in>set pl. map fst d = meals)))"
  proof (intro allI impI)
    fix dlg s' g'
    assume "generate_plan g s = Inr (dlg, s', g')"
    from generate_plan_result [OF this, folded fs_def]
    consider "dlg \<noteq> None \<and> s' = s"
      | pl where "dlg = None" "s' = s\<lparr>current_plan := Some pl\<rparr>" "plan_ok fs pl"
      by blast
    then show "(dlg \<noteq> None \<and> s' = s)
         \<or> (dlg = None \<and> (\<exists>pl. s' = s\<lparr>current_plan := Some pl\<rparr>
               \<and> map fst pl = day_labels
               \<and> (\<forall>(l, d)\<in>set pl. map fst d = meals)))"
    proof cases
      case 1
      then show ?thesis by (rule disjI1)
    next
      case 2
      from plan_ok_shape [OF 2(3)]
      have "map fst pl = day_labels \<and> (\<forall>(l, d)\<in>set pl. map fst d = meals)"
        by (simp add: case_prod_beta)
      with 2(1,2) show ?thesis by blast
    qed
  qed
  from conjI [OF 1 conjI [OF 2 3]] show ?thesis
    unfolding fs_def day_labels_def meals_def .
qed

lemma vegan_app_ready:
  "profile vegan_app \<noteq> [] \<and> filtered_recipes (profile vegan_app) (recipes vegan_app) \<noteq> []"
  by code_simp

theorem plan_shape_invariant_witness:
  "profile vegan_app \<noteq> []
   \<and> filtered_recipes (profile vegan_app) (recipes vegan_app) \<noteq> []
   \<and> (\<exists>pl g'. generate_plan (\<lambda>n. n) vegan_app = Inr (None, vegan_app\<lparr>current_plan := Some pl\<rparr>, g')
         \<and> map fst pl = day_labels
         \<and> list_all (\<lambda>(l, d). map fst d = meals
              \<and> list_all (\<lambda>(m, r). r \<in> set (filtered_recipes (profile vegan_app) (recipes vegan_app))) d) pl)"
  using plan_shape_invariant [of vegan_app "\<lambda>n. n"] vegan_app_ready
  unfolding list_all_iff day_labels_def meals_def by blast

text \<open>
  Claim C4. In the plan that \<^verbatim>\<open>generate_plan\<close> stores, the recipe of each of the 7 days
  and each of the 4 slots is taken from the recipes of the filtered set tagged with
  the slot's meal when there is one, and from the whole filtered set otherwise. So a
  recipe tagged for another meal sits in a slot only when no recipe tagged for that
  slot survived the filters.
\<close>

theorem cross_slot_fallback:
  assumes "profile s \<noteq> []" and "filtered_recipes (profile s) (recipes s) \<noteq> []"
  shows "\<exists>pl g'. generate_plan g s = Inr (None, s\<lparr>current_plan := Some pl\<rparr>, g')
     \<and> (\<forall>l\<in>set [''Day 1'', ''Day 2'', ''Day 3'', ''Day 4'', ''Day 5'', ''Day 6'', ''Day 7''].
         \<forall>m\<in>set [''Breakfast'', ''Lunch'', ''Snack'', ''Dinner''].
           \<exists>d r. map_of pl l = Some d \<and> map_of d m = Some r
             \<and> r \<in> set (if filter (\<lambda>r. meal r = m) (filtered_recipes (profile s) (recipes s)) \<noteq> []
                         then filter (\<lambda>r. meal r = m) (filtered_recipes (profile s) (recipes s))
                         else filtered_recipes (profile s) (recipes s))
             \<and> r \<in> set (filtered_recipes (profile s) (recipes s))
             \<and> (meal r \<noteq> m \<longrightarrow>
                  filter (\<lambda>r. meal r = m) (filtered_recipes (profile s) (recipes s)) = []))"
proof -
  define fs where "fs = filtered_recipes (profile s) (recipes s)"
  from generate_plan_success [OF assms, of g] obtain pl g' where
    p: "generate_plan g s = Inr (None, s\<lparr>current_plan := Some pl\<rparr>, g')" "plan_ok fs pl"
    unfolding fs_def by blast
  have slot: "\<exists>d r. map_of pl l = Some d \<and> map_of d m = Some r
             \<and> r \<in> set (if choices fs m \<noteq> [] then choices fs m else fs)
             \<and> r \<in> set fs \<and> (meal r \<noteq> m \<longrightarrow> choices fs m = [])"
    if l: "l \<in> set day_labels" and m: "m \<in> set meals" for l m
  proof -
    from plan_ok_lookup [OF p(2) l] obtain d where
      d: "map_of pl l = Some d" "day_ok fs d" by blast
    from day_ok_lookup [OF d(2) m] obtain r where
      r: "map_of d m = Some r" "r \<in> set (if choices fs m \<noteq> [] then choices fs m else fs)"
      by blast
    from r(1) have "(m, r) \<in> set d" by (rule map_of_SomeD)
    from day_ok_filtered [OF d(2) this]
    have "r \<in> set fs \<and> (meal r \<noteq> m \<longrightarrow> choices fs m = [])" by blast
    with d(1) r show ?thesis by blast
  qed
  then have "\<forall>l\<in>set day_labels. \<forall>m\<in>set meals.
           \<exists>d r. map_of pl l = Some d \<and> map_of d m = Some r
             \<and> r \<in> set (if choices fs m \<noteq> [] then choices fs m else fs)
             \<and> r \<in> set fs \<and> (meal r \<noteq> m \<longrightarrow> choices fs m = [])"
    by blast
  with p(1) have "generate_plan g s = Inr (None, s\<lparr>current_plan := Some pl\<rparr>, g')
     \<and> (\<forall>l\<in>set day_labels. \<forall>m\<in>set meals.
           \<exists>d r. map_of pl l = Some d \<and> map_of d m = Some r
             \<and> r \<in> set (if choices fs m \<noteq> [] then choices fs m else fs)
             \<and> r \<in> set fs \<and> (meal r \<noteq> m \<longrightarrow> choices fs m = []))"
    by (rule conjI)
  then have "\<exists>pl g'. generate_plan g s = Inr (None, s\<lparr>current_plan := Some pl\<rparr>, g')
     \<and> (\<forall>l\<in>set day_labels. \<forall>m\<in>set meals.
           \<exists>d r. map_of pl l = Some d \<and> map_of d m = Some r
             \<and> r \<in> set (if choices fs m \<noteq> [] then choices fs m else fs)
             \<and> r \<in> set fs \<and> (meal r \<noteq> m \<longrightarrow> choices fs m = []))"
    by - (rule exI [where x = pl], rule exI [where x = g'])
  then show ?thesis unfolding fs_def day_labels_def meals_def choices_def .
qed

theorem cross_slot_fallback_witness:
  "profile vegan_app \<noteq> []
   \<and> filtered_recipes (profile vegan_app) (recipes vegan_app) \<noteq> []
   \<and> (\<exists>pl g' d r. generate_plan (\<lambda>n. n) vegan_app = Inr (None, vegan_app\<lparr>current_plan := Some pl\<rparr>, g')
         \<and> map_of pl ''Day 3'' = Some d \<and> map_of d ''Lunch'' = Some r
         \<and> r \<in> set (filtered_recipes (profile vegan_app) (recipes vegan_app)))"
proof -
  from vegan_app_ready have a: "profile vegan_app \<noteq> []"
    and b: "filtered_recipes (profile vegan_app) (recipes vegan_app) \<noteq> []" by simp_all
  from cross_slot_fallback [OF a b, of "\<lambda>n. n"] obtain pl g' where
    p: "generate_plan (\<lambda>n. n) vegan_app = Inr (None, vegan_app\<lparr>current_plan := Some pl\<rparr>, g')"
    and q: "\<forall>l\<in>set [''Day 1'', ''Day 2'', ''Day 3'', ''Day 4'', ''Day 5'', ''Day 6'', ''Day 7''].
         \<forall>m\<in>set [''Breakfast'', ''Lunch'', ''Snack'', ''Dinner''].
           \<exists>d r. map_of pl l = Some d \<and> map_of d m = Some r
             \<and> r \<in> set (if filter (\<lambda>r. meal r = m) (filtered_recipes (profile vegan_app) (recipes vegan_app)) \<noteq> []
                         then filter (\<lambda>r. meal r = m) (filtered_recipes (profile vegan_app) (recipes vegan_app))
                         else filtered_recipes (profile vegan_app) (recipes vegan_app))
             \<and> r \<in> set (filtered_recipes (profile vegan_app) (recipes vegan_app))
             \<and> (meal r \<noteq> m \<longrightarrow>
                  filter (\<lambda>r. meal r = m) (filtered_recipes (profile vegan_app) (recipes vegan_app)) = [])"
    by blast
  have "''Day 3'' \<in> set [''Day 1'', ''Day 2'', ''Day 3'', ''Day 4'', ''Day 5'', ''Day 6'', ''Day 7'']"
    and "''Lunch'' \<in> set [''Breakfast'', ''Lunch'', ''Snack'', ''Dinner'']" by simp_all
  with q obtain d r where "map_of pl ''Day 3'' = Some d" "map_of d ''Lunch'' = Some r"
    "r \<in> set (filtered_recipes (profile vegan_app) (recipes vegan_app))" by blast
  with p a b show ?thesis by blast
qed

text \<open>
  Claim C5. When the catalog has recipes and the two filters leave none,
  \<^verbatim>\<open>generate_plan\<close> shows the error box "No matching recipes found for your
  preferences!" and returns the state it was given: no plan is produced, the stored
  current plan (if any) is the one from before, and no random draw is made.
\<close>

theorem no_matching_recipes:
  assumes "recipes s \<noteq> []" and "filtered_recipes (profile s) (recipes s) = []"
  shows "generate_plan g s =
           Inr (Some (Showerror ''No matching recipes found for your preferences!''), s, g)"
proof -
  have "profile s \<noteq> []"
  proof
    assume "profile s = []"
    with assms(2) have "recipes s = []" by (simp add: filtered_recipes_empty_profile)
    with assms(1) show False by simp
  qed
  with assms show ?thesis by (simp add: generate_plan_def no_recipes_def)
qed

theorem no_matching_recipes_witness:
  "recipes no_match_app \<noteq> []
   \<and> filtered_recipes (profile no_match_app) (recipes no_match_app) = []
   \<and> generate_plan (\<lambda>n. n) no_match_app =
       Inr (Some (Showerror ''No matching recipes found for your preferences!''), no_match_app, \<lambda>n. n)
   \<and> current_plan no_match_app = Some sample_plan"
proof -
  have a: "recipes no_match_app \<noteq> []" by code_simp
  have b: "filtered_recipes (profile no_match_app) (recipes no_match_app) = []" by code_simp
  have c: "current_plan no_match_app = Some sample_plan" by (simp add: no_match_app_def)
  from no_matching_recipes [OF a b, of "\<lambda>n. n"] a b c show ?thesis by simp
qed

text \<open>
  Claim C6. When the profile is empty or the catalog is empty, \<^verbatim>\<open>generate_plan\<close>
  shows the warning box "Please save your profile and load recipes first." and
  returns the state it was given, whatever the filters would have kept. The warning
  differs from the error box of the no-matching-recipes case.
\<close>

theorem missing_prerequisite:
  assumes "profile s = [] \<or> recipes s = []"
  shows "generate_plan g s =
           Inr (Some (Showwarning ''Please save your profile and load recipes first.''), s, g)
       \<and> generate_plan g s \<noteq>
           Inr (Some (Showerror ''No matching recipes found for your preferences!''), s, g)
       \<and> missing_info \<noteq> no_recipes"
proof -
  from assms have "generate_plan g s = Inr (Some missing_info, s, g)"
    by (auto simp: generate_plan_def)
  moreover have "missing_info \<noteq> no_recipes" by (simp add: missing_info_def no_recipes_def)
  ultimately show ?thesis by (simp add: missing_info_def)
qed

theorem missing_prerequisite_witness:
  "profile no_profile_app = []
   \<and> generate_plan (\<lambda>n. n) no_profile_app =
       Inr (Some (Showwarning ''Please save your profile and load recipes first.''), no_profile_app, \<lambda>n. n)
   \<and> recipes no_recipes_app = []
   \<and> generate_plan (\<lambda>n. n) no_recipes_app =
       Inr (Some (Showwarning ''Please save your profile and load recipes first.''), no_recipes_app, \<lambda>n. n)"
proof -
  have a: "profile no_profile_app = []" by (simp add: no_profile_app_def)
  have b: "recipes no_recipes_app = []" by (simp add: no_recipes_app_def)
  from a have a': "profile no_profile_app = [] \<or> recipes no_profile_app = []" by (rule disjI1)
  from b have b': "profile no_recipes_app = [] \<or> recipes no_recipes_app = []" by (rule disjI2)
  from missing_prerequisite [OF a', of "\<lambda>n. n"] missing_prerequisite [OF b', of "\<lambda>n. n"] a b
  show ?thesis by simp
qed

subsection \<open>Calorie chart\<close>

lemma chart_loop_acc:
  "chart_loop pl days calories =
     (days @ map fst pl, calories @ map (\<lambda>(l, d). sum_list (map (\<lambda>(m, r). cal r) d)) pl)"
  by (induction pl days calories rule: chart_loop.induct) simp_all

lemma map_fst_four:
  assumes "map fst d = [k1, k2, k3, k4]"
  shows "\<exists>v1 v2 v3 v4. d = [(k1, v1), (k2, v2), (k3, v3), (k4, v4)]"
proof -
  from assms obtain p1 d1 where 1: "d = p1 # d1" "fst p1 = k1" "map fst d1 = [k2, k3, k4]"
    by (auto simp: map_eq_Cons_conv)
  from 1(3) obtain p2 d2 where 2: "d1 = p2 # d2" "fst p2 = k2" "map fst d2 = [k3, k4]"
    by (auto simp: map_eq_Cons_conv)
  from 2(3) obtain p3 d3 where 3: "d2 = p3 # d3" "fst p3 = k3" "map fst d3 = [k4]"
    by (auto simp: map_eq_Cons_conv)
  from 3(3) obtain p4 where 4: "d3 = [p4]" "fst p4 = k4"
    by (auto simp: map_eq_Cons_conv)
  have "d = [(k1, snd p1), (k2, snd p2), (k3, snd p3), (k4, snd p4)]"
    using 1(1,2) 2(1,2) 3(1,2) 4 by (simp add: prod_eq_iff)
  then show ?thesis by blast
qed

lemma plan_7x4_length: "plan_7x4 pl \<Longrightarrow> length pl = 7"
proof -
  assume "plan_7x4 pl"
  then have "length (map fst pl) = length day_labels" by (simp add: plan_7x4_def)
  then show ?thesis by (simp add: day_labels_def)
qed

lemma plan_7x4_day:
  assumes "plan_7x4 pl" "i < 7"
  shows "fst (pl ! i) = day_labels ! i \<and> map fst (snd (pl ! i)) = meals"
proof -
  from assms have i: "i < length pl" by (simp add: plan_7x4_length)
  from assms(1) have k: "map fst pl = day_labels" by (simp add: plan_7x4_def)
  from i have "fst (pl ! i) = map fst pl ! i" by simp
  with k have a: "fst (pl ! i) = day_labels ! i" by simp
  from i have "pl ! i \<in> set pl" by (rule nth_mem)
  with assms(1) have "map fst (snd (pl ! i)) = meals"
    by (auto simp: plan_7x4_def list_all_iff)
  with a show ?thesis by simp
qed

text \<open>
  Claim C7. The chart loop returns the day labels in plan order and, next to each,
  the sum of the \<^verbatim>\<open>cal\<close> fields of that day's meals. For a 7 by 4 plan these are the
  labels \<^verbatim>\<open>Day 1\<close> .. \<^verbatim>\<open>Day 7\<close> with seven totals, each the sum of the calories of
  the day's breakfast, lunch, snack and dinner; a day of 320, 420, 210 and 400
  calories totals 1350.
\<close>

theorem calorie_aggregation:
  "chart_loop pl [] [] = (map fst pl, map (\<lambda>(l, d). sum_list (map (\<lambda>(m, r). cal r) d)) pl)
   \<and> (plan_7x4 pl \<and> current_plan s = Some pl \<longrightarrow>
        (\<exists>cals. show_chart s =
                  Inr ([''Day 1'', ''Day 2'', ''Day 3'', ''Day 4'', ''Day 5'', ''Day 6'', ''Day 7''], cals)
           \<and> length cals = 7
           \<and> (\<forall>i<7. \<exists>b l sn d.
                 snd (pl ! i) = [(''Breakfast'', b), (''Lunch'', l), (''Snack'', sn), (''Dinner'', d)]
                 \<and> cals ! i = cal b + cal l + cal sn + cal d
                 \<and> (cal b = 320 \<and> cal l = 420 \<and> cal sn = 210 \<and> cal d = 400 \<longrightarrow> cals ! i = 1350))))"
proof -
  let ?tot = "\<lambda>(l, d). sum_list (map (\<lambda>(m, r). cal r) d)"
  have g: "chart_loop pl [] [] = (map fst pl, map ?tot pl)"
    by (simp add: chart_loop_acc)
  have h: "\<exists>cals. show_chart s = Inr (day_labels, cals) \<and> length cals = 7
           \<and> (\<forall>i<7. \<exists>b l sn d.
                 snd (pl ! i) = [(meals ! 0, b), (meals ! 1, l), (meals ! 2, sn), (meals ! 3, d)]
                 \<and> cals ! i = cal b + cal l + cal sn + cal d
                 \<and> (cal b = 320 \<and> cal l = 420 \<and> cal sn = 210 \<and> cal d = 400 \<longrightarrow> cals ! i = 1350))"
    if p: "plan_7x4 pl" and c: "current_plan s = Some pl"
  proof -
    from p have k: "map fst pl = day_labels" by (simp add: plan_7x4_def)
    from c have sc: "show_chart s = Inr (day_labels, map ?tot pl)"
      by (simp add: show_chart_def g k)
    have len: "length (map ?tot pl) = 7" using p by (simp add: plan_7x4_length)
    have slot: "\<exists>b l sn d.
                 snd (pl ! i) = [(meals ! 0, b), (meals ! 1, l), (meals ! 2, sn), (meals ! 3, d)]
                 \<and> map ?tot pl ! i = cal b + cal l + cal sn + cal d
                 \<and> (cal b = 320 \<and> cal l = 420 \<and> cal sn = 210 \<and> cal d = 400 \<longrightarrow> map ?tot pl ! i = 1350)"
      if i: "i < 7" for i
    proof -
      from p i have "map fst (snd (pl ! i)) = meals" by (simp add: plan_7x4_day)
      then have "map fst (snd (pl ! i)) = [meals ! 0, meals ! 1, meals ! 2, meals ! 3]"
        by (simp add: meals_def)
      from map_fst_four [OF this] obtain b l sn d where
        e: "snd (pl ! i) = [(meals ! 0, b), (meals ! 1, l), (meals ! 2, sn), (meals ! 3, d)]"
        by blast
      from p i have "i < length pl" by (simp add: plan_7x4_length)
      then have "map ?tot pl ! i = ?tot (pl ! i)" by (rule nth_map)
      also have "\<dots> = sum_list (map (\<lambda>(m, r). cal r) (snd (pl ! i)))"
        by (simp add: case_prod_beta)
      also have "\<dots> = cal b + cal l + cal sn + cal d" unfolding e by simp
      finally have t: "map ?tot pl ! i = cal b + cal l + cal sn + cal d" .
      then have "cal b = 320 \<and> cal l = 420 \<and> cal sn = 210 \<and> cal d = 400 \<longrightarrow> map ?tot pl ! i = 1350"
        by simp
      with e t show ?thesis by blast
    qed
    from sc len slot show ?thesis by blast
  qed
  have m: "meals ! 0 = ''Breakfast'' \<and> meals ! 1 = ''Lunch'' \<and> meals ! 2 = ''Snack'' \<and> meals ! 3 = ''Dinner''"
    by (simp add: meals_def)
  from g h show ?thesis unfolding day_labels_def by (simp only: m) blast
qed

theorem calorie_aggregation_witness:
  "plan_7x4 sample_plan \<and> current_plan sample_app = Some sample_plan
   \<and> map (\<lambda>(m, r). cal r) (snd (sample_plan ! 0)) = [320, 420, 210, 400]
   \<and> (\<exists>cals. show_chart sample_app = Inr (day_labels, cals) \<and> cals ! 0 = 1350)"
proof -
  have a: "plan_7x4 sample_plan" by code_simp
  have b: "current_plan sample_app = Some sample_plan" by (simp add: sample_app_def)
  have c: "snd (sample_plan ! 0) =
      [(''Breakfast'', SAMPLE_RECIPES ! 0), (''Lunch'', SAMPLE_RECIPES ! 1),
       (''Snack'', SAMPLE_RECIPES ! 3), (''Dinner'', SAMPLE_RECIPES ! 2)]"
    by code_simp
  have d: "cal (SAMPLE_RECIPES ! 0) = 320 \<and> cal (SAMPLE_RECIPES ! 1) = 420
      \<and> cal (SAMPLE_RECIPES ! 3) = 210 \<and> cal (SAMPLE_RECIPES ! 2) = 400"
    by (simp add: SAMPLE_RECIPES_def)
  from calorie_aggregation [of sample_plan sample_app] a b obtain cals where
    e: "show_chart sample_app = Inr (day_labels, cals)"
    and f: "\<forall>i<7. \<exists>b l sn d.
                 snd (sample_plan ! i) = [(''Breakfast'', b), (''Lunch'', l), (''Snack'', sn), (''Dinner'', d)]
                 \<and> cals ! i = cal b + cal l + cal sn + cal d
                 \<and> (cal b = 320 \<and> cal l = 420 \<and> cal sn = 210 \<and> cal d = 400 \<longrightarrow> cals ! i = 1350)"
    unfolding day_labels_def by blast
  from f have "\<exists>b l sn d.
                 snd (sample_plan ! 0) = [(''Breakfast'', b), (''Lunch'', l), (''Snack'', sn), (''Dinner'', d)]
                 \<and> cals ! 0 = cal b + cal l + cal sn + cal d
                 \<and> (cal b = 320 \<and> cal l = 420 \<and> cal sn = 210 \<and> cal d = 400 \<longrightarrow> cals ! 0 = 1350)"
    by simp
  with c d have "cals ! 0 = 1350" by auto
  with e have g: "\<exists>cals. show_chart sample_app = Inr (day_labels, cals) \<and> cals ! 0 = 1350" by blast
  have h: "map (\<lambda>(m, r). cal r) (snd (sample_plan ! 0)) = [320, 420, 210, 400]"
    unfolding c using d by simp
  from a b h g show ?thesis by simp
qed

subsection \<open>Shopping list\<close>

lemma day_items_acc: "day_items d items = items @ concat (map (\<lambda>(m, r). ingredients r) d)"
  by (induction d items rule: day_items.induct) simp_all

lemma plan_items_acc:
  "plan_items pl items = items @ concat (map (\<lambda>(m, r). ingredients r) (concat (map snd pl)))"
  by (induction pl items rule: plan_items.induct) (simp_all add: day_items_acc)

lemma set_plan_items:
  "x \<in> set (plan_items pl []) \<longleftrightarrow>
     (\<exists>l d m r. (l, d) \<in> set pl \<and> (m, r) \<in> set d \<and> x \<in> set (ingredients r))"
proof
  assume "x \<in> set (plan_items pl [])"
  then have "\<exists>p\<in>set (concat (map snd pl)). x \<in> set (ingredients (snd p))"
    by (simp add: plan_items_acc case_prod_beta)
  then obtain p where p: "p \<in> set (concat (map snd pl))" "x \<in> set (ingredients (snd p))"
    by blast
  from p(1) obtain q where q: "q \<in> set pl" "p \<in> set (snd q)" by auto
  have "(fst q, snd q) \<in> set pl" "(fst p, snd p) \<in> set (snd q)" using q by simp_all
  with p(2) show "\<exists>l d m r. (l, d) \<in> set pl \<and> (m, r) \<in> set d \<and> x \<in> set (ingredients r)"
    by blast
next
  assume "\<exists>l d m r. (l, d) \<in> set pl \<and> (m, r) \<in> set d \<and> x \<in> set (ingredients r)"
  then obtain l d m r where a: "(l, d) \<in> set pl" "(m, r) \<in> set d" "x \<in> set (ingredients r)"
    by blast
  from a(1,2) have "(m, r) \<in> set (concat (map snd pl))" by force
  with a(3) have "\<exists>p\<in>set (concat (map snd pl)). x \<in> set (ingredients (snd p))"
    by force
  then show "x \<in> set (plan_items pl [])" by (simp add: plan_items_acc case_prod_beta)
qed

lemma sum_list_const4: "\<forall>x\<in>set xs. f x = (4::nat) \<Longrightarrow> sum_list (map f xs) = 4 * length xs"
  by (induction xs) simp_all

lemma plan_7x4_slots:
  assumes "plan_7x4 pl"
  shows "length (concat (map snd pl)) = 28"
proof -
  have "length (snd x) = 4" if "x \<in> set pl" for x
  proof -
    from assms that have "map fst (snd x) = meals" by (auto simp: plan_7x4_def list_all_iff)
    then have "length (map fst (snd x)) = length meals" by simp
    then show ?thesis by (simp add: meals_def)
  qed
  then have "\<forall>x\<in>set pl. (length \<circ> snd) x = 4" by simp
  then have "sum_list (map (length \<circ> snd) pl) = 4 * length pl"
    by (rule sum_list_const4)
  with assms show ?thesis by (simp add: length_concat plan_7x4_length)
qed

text \<open>
  Claim C8. The shopping list collects the ingredient lists of all the slots of the
  plan (28 of them in a 7 by 4 plan), keeps one copy of each string, compared
  exactly, and returns them in ascending order. The result is the only sorted list
  without repetition that has these elements, so it depends on nothing but the
  plan: two exports of the same plan give the same list.
\<close>

theorem shopping_list_extraction:
  "plan_items pl [] = concat (map (\<lambda>(m, r). ingredients r) (concat (map snd pl)))
   \<and> (\<forall>x. x \<in> set (shopping_items pl) \<longleftrightarrow>
          (\<exists>l d m r. (l, d) \<in> set pl \<and> (m, r) \<in> set d \<and> x \<in> set (ingredients r)))
   \<and> sorted (shopping_items pl)
   \<and> distinct (shopping_items pl)
   \<and> (\<forall>xs. sorted xs \<and> distinct xs \<and> set xs = set (plan_items pl []) \<longrightarrow> xs = shopping_items pl)
   \<and> (plan_7x4 pl \<longrightarrow> length (concat (map snd pl)) = 28)
   \<and> (current_plan s = Some pl \<longrightarrow> export_shopping_list s = Inr (shopping_items pl))
   \<and> (current_plan s = current_plan s' \<longrightarrow> export_shopping_list s = export_shopping_list s')"
proof -
  have 1: "plan_items pl [] = concat (map (\<lambda>(m, r). ingredients r) (concat (map snd pl)))"
    by (simp add: plan_items_acc)
  have s: "set (shopping_items pl) = set (plan_items pl [])"
    by (simp add: shopping_items_def)
  have 2: "\<forall>x. x \<in> set (shopping_items pl) \<longleftrightarrow>
          (\<exists>l d m r. (l, d) \<in> set pl \<and> (m, r) \<in> set d \<and> x \<in> set (ingredients r))"
    unfolding s by (rule allI) (rule set_plan_items)
  have 3: "sorted (shopping_items pl)" by (simp add: shopping_items_def)
  have 4: "distinct (shopping_items pl)" by (simp add: shopping_items_def)
  have 5: "\<forall>xs. sorted xs \<and> distinct xs \<and> set xs = set (plan_items pl []) \<longrightarrow> xs = shopping_items pl"
  proof (intro allI impI)
    fix xs :: "string list"
    assume a: "sorted xs \<and> distinct xs \<and> set xs = set (plan_items pl [])"
    with s have "set xs = set (shopping_items pl)" by simp
    with a 3 4 show "xs = shopping_items pl" by (simp add: sorted_distinct_set_unique)
  qed
  have 6: "plan_7x4 pl \<longrightarrow> length (concat (map snd pl)) = 28"
    by (simp add: plan_7x4_slots)
  have 7: "current_plan s = Some pl \<longrightarrow> export_shopping_list s = Inr (shopping_items pl)"
    by (simp add: export_shopping_list_def)
  have 8: "current_plan s = current_plan s' \<longrightarrow> export_shopping_list s = export_shopping_list s'"
    by (simp add: export_shopping_list_def)
  from 1 2 3 4 5 6 7 8 show ?thesis by (intro conjI)
qed

theorem shopping_list_extraction_witness:
  "plan_7x4 sample_plan \<and> current_plan sample_app = Some sample_plan
   \<and> length (concat (map snd sample_plan)) = 28
   \<and> export_shopping_list sample_app =
       Inr [''Almond milk'', ''Banana'', ''Bell pepper'', ''Chicken'', ''Lettuce'', ''Oats'',
            ''Olive oil'', ''Rice'', ''Soy sauce'', ''Spinach'']
   \<and> export_shopping_list (sample_app\<lparr>current_plan := Some case_plan\<rparr>) = Inr [''Oats'', ''oats'']"
proof -
  have a: "plan_7x4 sample_plan" by code_simp
  have b: "current_plan sample_app = Some sample_plan" by (simp add: sample_app_def)
  have c: "shopping_items sample_plan =
       [''Almond milk'', ''Banana'', ''Bell pepper'', ''Chicken'', ''Lettuce'', ''Oats'',
        ''Olive oil'', ''Rice'', ''Soy sauce'', ''Spinach'']"
    by code_simp
  have d: "shopping_items case_plan = [''Oats'', ''oats'']" by code_simp
  have e: "current_plan (sample_app\<lparr>current_plan := Some case_plan\<rparr>) = Some case_plan" by simp
  from shopping_list_extraction [of sample_plan sample_app sample_app] a b
  have 1: "length (concat (map snd sample_plan)) = 28"
    and 2: "export_shopping_list sample_app = Inr (shopping_items sample_plan)"
    by blast+
  from shopping_list_extraction [of case_plan "sample_app\<lparr>current_plan := Some case_plan\<rparr>" sample_app] e
  have 3: "export_shopping_list (sample_app\<lparr>current_plan := Some case_plan\<rparr>) = Inr (shopping_items case_plan)"
    by blast
  from a b 1 2 3 show ?thesis unfolding c d by simp
qed

subsection \<open>The vegan scenario\<close>

lemma vegan_filtered:
  "filtered_recipes vegan_profile SAMPLE_RECIPES = [oatmeal_bowl, smoothie, tofu_curry]"
  by code_simp

lemma vegan_choices:
  "choices [oatmeal_bowl, smoothie, tofu_curry] ''Breakfast'' = [oatmeal_bowl]"
  "choices [oatmeal_bowl, smoothie, tofu_curry] ''Lunch'' = []"
  "choices [oatmeal_bowl, smoothie, tofu_curry] ''Snack'' = [smoothie]"
  "choices [oatmeal_bowl, smoothie, tofu_curry] ''Dinner'' = [tofu_curry]"
  by code_simp+

text \<open>
  Claim C9 as stated says that the Dinner and Breakfast slots are filled through
  the cross-slot fallback as well. They are not: each has a tagged recipe among the
  three. With every draw equal to 1 the fallback would pick the second recipe of
  the filtered list, Smoothie, yet Dinner holds Tofu Curry and Breakfast holds
  Oatmeal Bowl.
\<close>

theorem vegan_fixture_counterexample:
  "filtered_recipes vegan_profile SAMPLE_RECIPES ! (1 mod 3) = smoothie
   \<and> choices (filtered_recipes vegan_profile SAMPLE_RECIPES) ''Dinner'' = [tofu_curry]
   \<and> choices (filtered_recipes vegan_profile SAMPLE_RECIPES) ''Breakfast'' = [oatmeal_bowl]
   \<and> plan_slot (generate_plan (\<lambda>n. 1) vegan_app) ''Day 1'' ''Dinner'' = Some tofu_curry
   \<and> plan_slot (generate_plan (\<lambda>n. 1) vegan_app) ''Day 1'' ''Breakfast'' = Some oatmeal_bowl"
  by code_simp

lemma lunch_any:
  "plan_slot (generate_plan (\<lambda>n. 0) vegan_app) ''Day 1'' ''Lunch'' = Some oatmeal_bowl"
  "plan_slot (generate_plan (\<lambda>n. 1) vegan_app) ''Day 1'' ''Lunch'' = Some smoothie"
  "plan_slot (generate_plan (\<lambda>n. 2) vegan_app) ''Day 1'' ''Lunch'' = Some tofu_curry"
  by code_simp+

lemma vegan_day:
  assumes "day_ok [oatmeal_bowl, smoothie, tofu_curry] d"
  shows "\<exists>x\<in>set [oatmeal_bowl, smoothie, tofu_curry].
           d = [(''Breakfast'', oatmeal_bowl), (''Lunch'', x), (''Snack'', smoothie), (''Dinner'', tofu_curry)]"
proof -
  let ?fs = "[oatmeal_bowl, smoothie, tofu_curry]"
  note a = assms [unfolded day_ok_def meals_def]
  from a have k: "map fst d = [''Breakfast'', ''Lunch'', ''Snack'', ''Dinner'']"
    by (rule conjunct1)
  from a have q: "\<forall>(m, r)\<in>set d. r \<in> set (if choices ?fs m \<noteq> [] then choices ?fs m else ?fs)"
    by (rule conjunct2)
  from map_fst_four [OF k] obtain b x sn dn where
    d: "d = [(''Breakfast'', b), (''Lunch'', x), (''Snack'', sn), (''Dinner'', dn)]"
    by (elim exE)
  have pool: "r \<in> set (if choices ?fs m \<noteq> [] then choices ?fs m else ?fs)"
    if "(m, r) \<in> set d" for m r
    using bspec [OF q that] by (simp only: prod.case)
  have "(''Breakfast'', b) \<in> set d" unfolding d by (intro list.set_intros)
  from pool [OF this] have b: "b = oatmeal_bowl"
    by (simp only: vegan_choices list.distinct if_True if_False simp_thms list.set insert_iff empty_iff)
  have "(''Lunch'', x) \<in> set d" unfolding d by (intro list.set_intros)
  from pool [OF this] have x: "x \<in> set ?fs"
    by (simp only: vegan_choices if_True if_False simp_thms)
  have "(''Snack'', sn) \<in> set d" unfolding d by (intro list.set_intros)
  from pool [OF this] have sn: "sn = smoothie"
    by (simp only: vegan_choices list.distinct if_True if_False simp_thms list.set insert_iff empty_iff)
  have "(''Dinner'', dn) \<in> set d" unfolding d by (intro list.set_intros)
  from pool [OF this] have dn: "dn = tofu_curry"
    by (simp only: vegan_choices list.distinct if_True if_False simp_thms list.set insert_iff empty_iff)
  have e: "d = [(''Breakfast'', oatmeal_bowl), (''Lunch'', x), (''Snack'', smoothie), (''Dinner'', tofu_curry)]"
    unfolding d b sn dn by (rule refl)
  show ?thesis by (rule bexI [where x = x]) (rule e, rule x)
qed

text \<open>
  Claim C9, as amended. With the seven sample recipes, a vegan profile and an empty
  allergies string, the filtered list is Oatmeal Bowl, Smoothie, Tofu Curry. For
  every state of the random source \<^verbatim>\<open>generate_plan\<close> stores a full 7 by 4 plan
  made of these three recipes. Only the Lunch slot has no tagged recipe and is
  filled through the fallback, with any of the three (each is reached by some
  draw); Breakfast is always Oatmeal Bowl, Snack always Smoothie and Dinner always
  Tofu Curry.
\<close>

theorem vegan_fixture_scenario:
  "map name (filtered_recipes vegan_profile SAMPLE_RECIPES) = [''Oatmeal Bowl'', ''Smoothie'', ''Tofu Curry'']
   \<and> filtered_recipes vegan_profile SAMPLE_RECIPES = [oatmeal_bowl, smoothie, tofu_curry]
   \<and> choices (filtered_recipes vegan_profile SAMPLE_RECIPES) ''Breakfast'' = [oatmeal_bowl]
   \<and> choices (filtered_recipes vegan_profile SAMPLE_RECIPES) ''Lunch'' = []
   \<and> choices (filtered_recipes vegan_profile SAMPLE_RECIPES) ''Snack'' = [smoothie]
   \<and> choices (filtered_recipes vegan_profile SAMPLE_RECIPES) ''Dinner'' = [tofu_curry]
   \<and> (\<exists>pl g'. generate_plan g vegan_app = Inr (None, vegan_app\<lparr>current_plan := Some pl\<rparr>, g')
         \<and> map fst pl = [''Day 1'', ''Day 2'', ''Day 3'', ''Day 4'', ''Day 5'', ''Day 6'', ''Day 7'']
         \<and> (\<forall>(l, d)\<in>set pl. \<exists>x\<in>set [oatmeal_bowl, smoothie, tofu_curry].
               d = [(''Breakfast'', oatmeal_bowl), (''Lunch'', x), (''Snack'', smoothie),
                    (''Dinner'', tofu_curry)]))
   \<and> plan_slot (generate_plan (\<lambda>n. 0) vegan_app) ''Day 1'' ''Lunch'' = Some oatmeal_bowl
   \<and> plan_slot (generate_plan (\<lambda>n. 1) vegan_app) ''Day 1'' ''Lunch'' = Some smoothie
   \<and> plan_slot (generate_plan (\<lambda>n. 2) vegan_app) ''Day 1'' ''Lunch'' = Some tofu_curry"
proof -
  let ?fs = "[oatmeal_bowl, smoothie, tofu_curry]"
  have 1: "map name (filtered_recipes vegan_profile SAMPLE_RECIPES) = [''Oatmeal Bowl'', ''Smoothie'', ''Tofu Curry'']"
    by (simp add: vegan_filtered oatmeal_bowl_def smoothie_def tofu_curry_def)
  have p: "profile vegan_app = vegan_profile" "recipes vegan_app = SAMPLE_RECIPES"
    by (simp_all add: vegan_app_def)
  have "profile vegan_app \<noteq> []" by (simp add: p vegan_profile_def)
  moreover have "filtered_recipes (profile vegan_app) (recipes vegan_app) \<noteq> []"
    by (simp add: p vegan_filtered)
  ultimately obtain pl g' where
    g: "generate_plan g vegan_app = Inr (None, vegan_app\<lparr>current_plan := Some pl\<rparr>, g')"
    and ok: "plan_ok ?fs pl"
    using generate_plan_success [of vegan_app g] unfolding p vegan_filtered by blast
  from ok have k: "map fst pl = day_labels" by (simp add: plan_ok_def)
  have "\<exists>x\<in>set ?fs. snd q = [(''Breakfast'', oatmeal_bowl), (''Lunch'', x), (''Snack'', smoothie),
                    (''Dinner'', tofu_curry)]" if "q \<in> set pl" for q
  proof -
    from ok that have "day_ok ?fs (snd q)" by (auto simp: plan_ok_def)
    then show ?thesis by (rule vegan_day)
  qed
  then have "\<forall>(l, d)\<in>set pl. \<exists>x\<in>set ?fs.
               d = [(''Breakfast'', oatmeal_bowl), (''Lunch'', x), (''Snack'', smoothie),
                    (''Dinner'', tofu_curry)]"
    by (simp add: case_prod_beta)
  with g k have "generate_plan g vegan_app = Inr (None, vegan_app\<lparr>current_plan := Some pl\<rparr>, g')
         \<and> map fst pl = day_labels
         \<and> (\<forall>(l, d)\<in>set pl. \<exists>x\<in>set ?fs.
               d = [(''Breakfast'', oatmeal_bowl), (''Lunch'', x), (''Snack'', smoothie),
                    (''Dinner'', tofu_curry)])"
    by (intro conjI)
  then have 2: "\<exists>pl g'. generate_plan g vegan_app = Inr (None, vegan_app\<lparr>current_plan := Some pl\<rparr>, g')
         \<and> map fst pl = day_labels
         \<and> (\<forall>(l, d)\<in>set pl. \<exists>x\<in>set ?fs.
               d = [(''Breakfast'', oatmeal_bowl), (''Lunch'', x), (''Snack'', smoothie),
                    (''Dinner'', tofu_curry)])"
    by - (rule exI [where x = pl], rule exI [where x = g'])
  have e2: "\<exists>pl g'. generate_plan g vegan_app = Inr (None, vegan_app\<lparr>current_plan := Some pl\<rparr>, g')
         \<and> map fst pl = [''Day 1'', ''Day 2'', ''Day 3'', ''Day 4'', ''Day 5'', ''Day 6'', ''Day 7'']
         \<and> (\<forall>(l, d)\<in>set pl. \<exists>x\<in>set ?fs.
               d = [(''Breakfast'', oatmeal_bowl), (''Lunch'', x), (''Snack'', smoothie),
                    (''Dinner'', tofu_curry)])"
    using 2 unfolding day_labels_def .
  have c: "choices (filtered_recipes vegan_profile SAMPLE_RECIPES) ''Breakfast'' = [oatmeal_bowl]"
    "choices (filtered_recipes vegan_profile SAMPLE_RECIPES) ''Lunch'' = []"
    "choices (filtered_recipes vegan_profile SAMPLE_RECIPES) ''Snack'' = [smoothie]"
    "choices (filtered_recipes vegan_profile SAMPLE_RECIPES) ''Dinner'' = [tofu_curry]"
    unfolding vegan_filtered by (rule vegan_choices)+
  from 1 vegan_filtered c e2 lunch_any show ?thesis by (intro conjI)
qed

lemma week_of_days:
  assumes k: "map fst pl = day_labels"
    and d: "\<forall>(l, d)\<in>set pl. \<exists>x\<in>set fs.
              d = [(''Breakfast'', a), (''Lunch'', x), (''Snack'', b), (''Dinner'', c)]"
    and m: "a \<in> set fs" "b \<in> set fs" "c \<in> set fs"
  shows "plan_7x4 pl \<and> list_all (\<lambda>(l, d). list_all (\<lambda>(m, r). r \<in> set fs) d) pl"
proof -
  have day: "map fst (snd q) = meals \<and> list_all (\<lambda>(m, r). r \<in> set fs) (snd q)"
    if q: "q \<in> set pl" for q
  proof -
    from bspec [OF d q] have "\<exists>x\<in>set fs.
        snd q = [(''Breakfast'', a), (''Lunch'', x), (''Snack'', b), (''Dinner'', c)]"
      by (simp only: case_prod_beta)
    then obtain x where x: "x \<in> set fs"
      and e: "snd q = [(''Breakfast'', a), (''Lunch'', x), (''Snack'', b), (''Dinner'', c)]"
      by (elim bexE)
    have 1: "map fst (snd q) = meals"
      unfolding e meals_def by (simp only: list.map fst_conv)
    have 2: "list_all (\<lambda>(m, r). r \<in> set fs) (snd q)"
      unfolding e by (simp only: list.pred_inject prod.case x m simp_thms)
    from 1 2 show ?thesis by (rule conjI)
  qed
  have "\<forall>q\<in>set pl. map fst (snd q) = meals" using day by (intro ballI) (rule conjunct1)
  then have 1: "plan_7x4 pl"
    unfolding plan_7x4_def list_all_iff by (simp only: case_prod_unfold k simp_thms)
  have "\<forall>q\<in>set pl. list_all (\<lambda>(m, r). r \<in> set fs) (snd q)"
    using day by (intro ballI) (rule conjunct2)
  then have 2: "list_all (\<lambda>(l, d). list_all (\<lambda>(m, r). r \<in> set fs) d) pl"
    unfolding list_all_iff by (simp only: case_prod_unfold)
  from 1 2 show ?thesis by (rule conjI)
qed

theorem vegan_fixture_scenario_witness:
  "\<exists>pl g'. generate_plan (\<lambda>n. n) vegan_app = Inr (None, vegan_app\<lparr>current_plan := Some pl\<rparr>, g')
      \<and> plan_7x4 pl
      \<and> list_all (\<lambda>(l, d). list_all (\<lambda>(m, r). r \<in> set [oatmeal_bowl, smoothie, tofu_curry]) d) pl"
proof -
  have m: "oatmeal_bowl \<in> set [oatmeal_bowl, smoothie, tofu_curry]"
    "smoothie \<in> set [oatmeal_bowl, smoothie, tofu_curry]"
    "tofu_curry \<in> set [oatmeal_bowl, smoothie, tofu_curry]"
    by (intro list.set_intros)+
  from vegan_fixture_scenario [of "\<lambda>n. n"]
  have "\<exists>pl g'. generate_plan (\<lambda>n. n) vegan_app = Inr (None, vegan_app\<lparr>current_plan := Some pl\<rparr>, g')
         \<and> map fst pl = [''Day 1'', ''Day 2'', ''Day 3'', ''Day 4'', ''Day 5'', ''Day 6'', ''Day 7'']
         \<and> (\<forall>(l, d)\<in>set pl. \<exists>x\<in>set [oatmeal_bowl, smoothie, tofu_curry].
               d = [(''Breakfast'', oatmeal_bowl), (''Lunch'', x), (''Snack'', smoothie),
                    (''Dinner'', tofu_curry)])"
    by (elim conjE)
  then show ?thesis
  proof (elim exE conjE)
    fix pl g'
    assume g: "generate_plan (\<lambda>n. n) vegan_app = Inr (None, vegan_app\<lparr>current_plan := Some pl\<rparr>, g')"
      and k: "map fst pl = [''Day 1'', ''Day 2'', ''Day 3'', ''Day 4'', ''Day 5'', ''Day 6'', ''Day 7'']"
      and d: "\<forall>(l, d)\<in>set pl. \<exists>x\<in>set [oatmeal_bowl, smoothie, tofu_curry].
               d = [(''Breakfast'', oatmeal_bowl), (''Lunch'', x), (''Snack'', smoothie),
                    (''Dinner'', tofu_curry)]"
    from k have k': "map fst pl = day_labels" unfolding day_labels_def .
    note w = week_of_days [OF k' d m]
    from g w have "generate_plan (\<lambda>n. n) vegan_app = Inr (None, vegan_app\<lparr>current_plan := Some pl\<rparr>, g')
      \<and> plan_7x4 pl
      \<and> list_all (\<lambda>(l, d). list_all (\<lambda>(m, r). r \<in> set [oatmeal_bowl, smoothie, tofu_curry]) d) pl"
      by (rule conjI)
    then show ?thesis by - (rule exI [where x = pl], rule exI [where x = g'])
  qed
qed

subsection \<open>Parsing the allergies string\<close>

lemma join_Cons_head: "join sep ((c # w) # ws) = c # join sep (w # ws)"
  by (cases ws) simp_all

lemma join_split: "join [sep] (split sep s) = s"
proof (induction s)
  case Nil
  then show ?case by simp
next
  case (Cons c cs)
  obtain w ws where sp: "split sep cs = w # ws"
    using split_not_Nil [of sep cs] by (cases "split sep cs") auto
  from Cons.IH have ih: "join [sep] (w # ws) = cs" by (simp add: sp)
  show ?case
  proof (cases "c = sep")
    case True
    then have "split sep (c # cs) = [] # w # ws" by (simp add: sp)
    then show ?thesis using True ih by simp
  next
    case False
    then have "split sep (c # cs) = (c # w) # ws" by (simp add: sp)
    then show ?thesis using ih by (simp add: join_Cons_head)
  qed
qed

lemma split_append: "split sep (a @ sep # b) = split sep a @ split sep b"
proof (induction a)
  case Nil
  then show ?case by simp
next
  case (Cons c cs)
  obtain w ws where sp: "split sep cs = w # ws"
    using split_not_Nil [of sep cs] by (cases "split sep cs") auto
  with Cons.IH have ih: "split sep (cs @ sep # b) = (w # ws) @ split sep b" by simp
  show ?case
  proof (cases "c = sep")
    case True
    then show ?thesis using sp ih by simp
  next
    case False
    then show ?thesis using sp ih by simp
  qed
qed

lemma split_no_sep: "sep \<notin> set s \<Longrightarrow> split sep s = [s]"
  by (induction s) auto

lemma length_split: "length (split sep s) = Suc (length (filter (\<lambda>c. c = sep) s))"
proof (induction s)
  case Nil
  then show ?case by simp
next
  case (Cons c cs)
  obtain w ws where sp: "split sep cs = w # ws"
    using split_not_Nil [of sep cs] by (cases "split sep cs") auto
  with Cons.IH show ?case by simp
qed

lemma split_covers: "c \<in> set s \<Longrightarrow> c \<noteq> sep \<Longrightarrow> \<exists>w\<in>set (split sep s). c \<in> set w"
proof (induction s)
  case Nil
  then show ?case by simp
next
  case (Cons x xs)
  obtain w ws where sp: "split sep xs = w # ws"
    using split_not_Nil [of sep xs] by (cases "split sep xs") auto
  show ?case
  proof (cases "c = x")
    case True
    with Cons.prems(2) have "split sep (x # xs) = (x # w) # ws" by (simp add: sp)
    with True show ?thesis by simp
  next
    case False
    with Cons.prems have "c \<in> set xs" by simp
    from Cons.IH [OF this Cons.prems(2)] obtain v where v: "v \<in> set (w # ws)" "c \<in> set v"
      unfolding sp by blast
    show ?thesis
    proof (cases "x = sep")
      case True
      then have "split sep (x # xs) = [] # w # ws" by (simp add: sp)
      with v show ?thesis by auto
    next
      case False
      then have e: "split sep (x # xs) = (x # w) # ws" by (simp add: sp)
      from v(1) have "v = w \<or> v \<in> set ws" by simp
      then show ?thesis
      proof
        assume "v = w"
        with v(2) have "c \<in> set (x # w)" by simp
        then show ?thesis unfolding e by (intro bexI [where x = "x # w"]) simp_all
      next
        assume "v \<in> set ws"
        with v(2) show ?thesis unfolding e by (intro bexI [where x = v]) simp_all
      qed
    qed
  qed
qed

lemma strip_decomp:
  "\<exists>pre suf. a = pre @ strip a @ suf \<and> (\<forall>c\<in>set pre. is_space c) \<and> (\<forall>c\<in>set suf. is_space c)"
proof -
  define u where "u = dropWhile is_space a"
  define t where "t = takeWhile is_space (rev u)"
  have 1: "a = takeWhile is_space a @ u" by (simp add: u_def)
  have "rev u = t @ dropWhile is_space (rev u)" by (simp add: t_def)
  then have "rev (rev u) = rev (t @ dropWhile is_space (rev u))" by simp
  then have 2: "u = strip a @ rev t" by (simp add: strip_def u_def)
  have 3: "\<forall>c\<in>set (takeWhile is_space a). is_space c" by (auto dest: set_takeWhileD)
  have 4: "\<forall>c\<in>set (rev t). is_space c" unfolding t_def by (auto dest: set_takeWhileD)
  from 1 2 have "a = takeWhile is_space a @ strip a @ rev t" by simp
  with 3 4 show ?thesis by blast
qed

lemma strip_Nil_iff: "strip a = [] \<longleftrightarrow> (\<forall>c\<in>set a. is_space c)"
proof
  assume e: "strip a = []"
  from strip_decomp [of a] obtain pre suf where
    "a = pre @ strip a @ suf" "\<forall>c\<in>set pre. is_space c" "\<forall>c\<in>set suf. is_space c" by blast
  with e show "\<forall>c\<in>set a. is_space c" by auto
next
  assume "\<forall>c\<in>set a. is_space c"
  then show "strip a = []" by (rule strip_blank)
qed

lemma parse_allergies_mem:
  "t \<in> set (parse_allergies s) \<longleftrightarrow>
     (\<exists>a\<in>set (split CHR '','' s). strip a \<noteq> [] \<and> t = lower (strip a))"
  by (auto simp: parse_allergies_def)

lemma parse_allergies_nonempty_iff:
  "parse_allergies s \<noteq> [] \<longleftrightarrow> (\<exists>c\<in>set s. c \<noteq> CHR '','' \<and> \<not> is_space c)"
proof
  assume "parse_allergies s \<noteq> []"
  then obtain a where a: "a \<in> set (split CHR '','' s)" "strip a \<noteq> []"
    by (auto simp: parse_allergies_def filter_empty_conv)
  from a(2) obtain c where c: "c \<in> set a" "\<not> is_space c" by (auto simp: strip_Nil_iff)
  from split_chars [OF a(1)] c(1) have "c \<in> set s" "c \<noteq> CHR '',''" by auto
  with c(2) show "\<exists>c\<in>set s. c \<noteq> CHR '','' \<and> \<not> is_space c" by blast
next
  assume "\<exists>c\<in>set s. c \<noteq> CHR '','' \<and> \<not> is_space c"
  then obtain c where c: "c \<in> set s" "c \<noteq> CHR '',''" "\<not> is_space c" by blast
  from split_covers [OF c(1,2)] obtain w where w: "w \<in> set (split CHR '','' s)" "c \<in> set w"
    by blast
  from w(2) c(3) have "strip w \<noteq> []" by (auto simp: strip_Nil_iff)
  with w(1) have "filter (\<lambda>a. strip a \<noteq> []) (split CHR '','' s) \<noteq> []"
    by (auto simp: filter_empty_conv)
  then show "parse_allergies s \<noteq> []" by (simp add: parse_allergies_def)
qed

lemma parse_allergies_append:
  "parse_allergies (a @ CHR '','' # b) = parse_allergies a @ parse_allergies b"
  by (simp add: parse_allergies_def split_append)

lemma parse_allergies_single:
  "CHR '','' \<notin> set a \<Longrightarrow> strip a \<noteq> [] \<Longrightarrow> parse_allergies a = [lower (strip a)]"
  by (simp add: parse_allergies_def split_no_sep)

lemma parse_allergies_example:
  "parse_allergies '' Nut, ,,EGGS '' = [''nut'', ''eggs'']"
  by code_simp

lemma pea_nut_facts:
  "\<not> allergy_hit [''peanut''] pea_nut"
  "str_in ''peanut'' (lower (concat (ingredients pea_nut)))"
  by code_simp+

lemma blank_profile_facts:
  "list_all (\<lambda>c. c = CHR '','' \<or> is_space c) (dict_get blank_profile ''allergies'' '''')"
  "dict_get blank_profile ''diet_type'' ''omnivore'' = ''vegan''"
  "dict_get blank_profile ''allergies'' '''' = '' , ,''"
  by code_simp+

lemma lower_nth:
  "i < length a \<Longrightarrow>
     of_char (lower a ! i) =
       (let n = (of_char (a ! i) :: nat)
        in if (65 \<le> n \<and> n \<le> 90) \<or> (192 \<le> n \<and> n \<le> 222 \<and> n \<noteq> 215) then n + 32 else n)"
  by (simp add: lower_def of_char_lower_char)

text \<open>
  Claim C10. The allergies string is split on commas; each piece is stripped of
  surrounding whitespace and lower-cased, and the pieces that are empty after
  stripping are discarded.
  \<^item> Splitting loses nothing: joining the pieces with a comma gives the string
    back, no piece holds a comma, and there is one piece more than there are commas.
  \<^item> Stripping removes a run of whitespace at each end and nothing else.
  \<^item> Lower-casing keeps the length and moves each capital letter up by 32.
  \<^item> Every token is non-empty, has no comma, no whitespace at either end and no
    capital letter. A piece without a comma that is not blank gives exactly one
    token; the tokens of \<open>a,b\<close> are those of \<open>a\<close> followed by those of \<open>b\<close>; there is a
    token as soon as the string has a character that is neither a comma nor
    whitespace, and only then.
  \<^item> So for a string of commas and whitespace only, the token list is empty, the
    allergy filter is skipped and the filtered list is the diet-filtered list.
  \<^item> With tokens, a recipe is dropped exactly when a token occurs in its
    ingredients joined with \<^verbatim>\<open>", "\<close> and lower-cased. The separator matters: the token
    \<^verbatim>\<open>peanut\<close> does not hit the ingredients \<^verbatim>\<open>Pea\<close>, \<^verbatim>\<open>Nut\<close>, although it occurs in
    their bare concatenation.
\<close>

theorem allergy_token_parsing:
  "parse_allergies s =
     map (\<lambda>a. lower (strip a)) (filter (\<lambda>a. strip a \<noteq> []) (split CHR '','' s))
   \<and> (\<forall>t\<in>set (parse_allergies s).
         t \<noteq> [] \<and> CHR '','' \<notin> set t \<and> \<not> is_space (hd t) \<and> \<not> is_space (last t)
         \<and> lower t = t)
   \<and> ((\<forall>c\<in>set s. c = CHR '','' \<or> is_space c) \<longrightarrow> parse_allergies s = [])
   \<and> ((\<forall>c\<in>set (dict_get p ''allergies'' ''''). c = CHR '','' \<or> is_space c) \<longrightarrow>
         filtered_recipes p rs = diet_filter (dict_get p ''diet_type'' ''omnivore'') rs)
   \<and> (parse_allergies (dict_get p ''allergies'' '''') \<noteq> [] \<longrightarrow>
         filtered_recipes p rs =
           filter (\<lambda>r. \<not> (\<exists>a\<in>set (parse_allergies (dict_get p ''allergies'' '''')).
                             str_in a (lower (join '', '' (ingredients r)))))
             (diet_filter (dict_get p ''diet_type'' ''omnivore'') rs))
   \<and> join '', '' (x # y # ys) = x @ '', '' @ join '', '' (y # ys)
   \<and> \<not> allergy_hit [''peanut''] pea_nut
   \<and> str_in ''peanut'' (lower (concat (ingredients pea_nut)))
   \<and> join '','' (split CHR '','' s) = s
   \<and> (\<forall>w\<in>set (split CHR '','' s). CHR '','' \<notin> set w)
   \<and> length (split CHR '','' s) = Suc (length (filter (\<lambda>c. c = CHR '','') s))
   \<and> (\<exists>pre suf. a = pre @ strip a @ suf
         \<and> (\<forall>c\<in>set pre. is_space c) \<and> (\<forall>c\<in>set suf. is_space c))
   \<and> (strip a \<noteq> [] \<longrightarrow> \<not> is_space (hd (strip a)) \<and> \<not> is_space (last (strip a)))
   \<and> length (lower a) = length a
   \<and> (\<forall>i<length a.
         of_char (lower a ! i) =
           (let n = (of_char (a ! i) :: nat)
            in if (65 \<le> n \<and> n \<le> 90) \<or> (192 \<le> n \<and> n \<le> 222 \<and> n \<noteq> 215)
               then n + 32 else n))
   \<and> (parse_allergies s \<noteq> [] \<longleftrightarrow> (\<exists>c\<in>set s. c \<noteq> CHR '','' \<and> \<not> is_space c))
   \<and> parse_allergies (a @ CHR '','' # b) = parse_allergies a @ parse_allergies b
   \<and> (CHR '','' \<notin> set a \<and> strip a \<noteq> [] \<longrightarrow> parse_allergies a = [lower (strip a)])
   \<and> parse_allergies '' Nut, ,,EGGS '' = [''nut'', ''eggs'']"
proof -
  define as where "as = parse_allergies (dict_get p ''allergies'' '''')"
  define fs where "fs = diet_filter (dict_get p ''diet_type'' ''omnivore'') rs"
  have u: "filtered_recipes p rs = allergy_filter as fs"
    unfolding as_def fs_def by (rule filtered_recipes_unfold)
  have 1: "parse_allergies s =
     map (\<lambda>a. lower (strip a)) (filter (\<lambda>a. strip a \<noteq> []) (split CHR '','' s))"
    by (rule parse_allergies_def)
  have 2: "\<forall>t\<in>set (parse_allergies s).
         t \<noteq> [] \<and> CHR '','' \<notin> set t \<and> \<not> is_space (hd t) \<and> \<not> is_space (last t)
         \<and> lower t = t"
    by (rule ballI) (rule parse_allergies_token)
  have 3: "(\<forall>c\<in>set s. c = CHR '','' \<or> is_space c) \<longrightarrow> parse_allergies s = []"
    by (rule impI) (rule parse_allergies_blank)
  have 4: "(\<forall>c\<in>set (dict_get p ''allergies'' ''''). c = CHR '','' \<or> is_space c) \<longrightarrow>
         filtered_recipes p rs = fs"
  proof
    assume "\<forall>c\<in>set (dict_get p ''allergies'' ''''). c = CHR '','' \<or> is_space c"
    then have "as = []" unfolding as_def by (rule parse_allergies_blank)
    then show "filtered_recipes p rs = fs" by (simp add: u allergy_filter_def)
  qed
  have 5: "as \<noteq> [] \<longrightarrow>
         filtered_recipes p rs =
           filter (\<lambda>r. \<not> (\<exists>a\<in>set as. str_in a (lower (join '', '' (ingredients r))))) fs"
    by (simp add: u allergy_filter_def allergy_hit_iff)
  have 6: "join '', '' (x # y # ys) = x @ '', '' @ join '', '' (y # ys)"
    by (rule join.simps)
  have 7: "join '','' (split CHR '','' s) = s" by (rule join_split)
  have 8: "\<forall>w\<in>set (split CHR '','' s). CHR '','' \<notin> set w"
    using split_chars [of _ "CHR '',''" s] by blast
  have 9: "length (split CHR '','' s) = Suc (length (filter (\<lambda>c. c = CHR '','') s))"
    by (rule length_split)
  have 10: "strip a \<noteq> [] \<longrightarrow> \<not> is_space (hd (strip a)) \<and> \<not> is_space (last (strip a))"
    by (rule impI) (rule strip_ends)
  have 11: "length (lower a) = length a" by (simp add: lower_def)
  have 12: "\<forall>i<length a.
         of_char (lower a ! i) =
           (let n = (of_char (a ! i) :: nat)
            in if (65 \<le> n \<and> n \<le> 90) \<or> (192 \<le> n \<and> n \<le> 222 \<and> n \<noteq> 215)
               then n + 32 else n)"
    by (intro allI impI) (rule lower_nth)
  have 13: "CHR '','' \<notin> set a \<and> strip a \<noteq> [] \<longrightarrow> parse_allergies a = [lower (strip a)]"
    by (simp add: parse_allergies_single)
  from 1 2 3 4 5 6 pea_nut_facts 7 8 9 strip_decomp [of a] 10 11 12
    parse_allergies_nonempty_iff [of s] parse_allergies_append [of a b] 13
    parse_allergies_example
  show ?thesis
    unfolding as_def fs_def by (intro conjI)
qed

theorem allergy_token_parsing_witness:
  "list_all (\<lambda>c. c = CHR '','' \<or> is_space c) (dict_get blank_profile ''allergies'' '''')
   \<and> parse_allergies (dict_get blank_profile ''allergies'' '''') = []
   \<and> filtered_recipes blank_profile SAMPLE_RECIPES =
       diet_filter (dict_get blank_profile ''diet_type'' ''omnivore'') SAMPLE_RECIPES
   \<and> CHR '','' \<notin> set '' Nut ''
   \<and> strip '' Nut '' = ''Nut''
   \<and> parse_allergies '' Nut '' = [''nut'']
   \<and> dict_get nut_profile ''allergies'' '''' = '' Nut ''
   \<and> parse_allergies (dict_get nut_profile ''allergies'' '''') \<noteq> []
   \<and> filtered_recipes nut_profile SAMPLE_RECIPES =
       filter (\<lambda>r. \<not> (\<exists>a\<in>set (parse_allergies (dict_get nut_profile ''allergies'' '''')).
                         str_in a (lower (join '', '' (ingredients r)))))
         (diet_filter (dict_get nut_profile ''diet_type'' ''omnivore'') SAMPLE_RECIPES)"
proof -
  note t = allergy_token_parsing [of "dict_get blank_profile ''allergies'' ''''" blank_profile
      SAMPLE_RECIPES "[]" "[]" "[]" "'' Nut ''" "[]"]
  note n = allergy_token_parsing [of "[]" nut_profile SAMPLE_RECIPES "[]" "[]" "[]" "[]" "[]"]
  have h: "\<forall>c\<in>set (dict_get blank_profile ''allergies'' ''''). c = CHR '','' \<or> is_space c"
    using blank_profile_facts(1) unfolding list_all_iff .
  from t have "(\<forall>c\<in>set (dict_get blank_profile ''allergies'' ''''). c = CHR '','' \<or> is_space c)
      \<longrightarrow> parse_allergies (dict_get blank_profile ''allergies'' '''') = []"
    by (elim conjE)
  from this h have a: "parse_allergies (dict_get blank_profile ''allergies'' '''') = []"
    by (rule mp)
  from t have "(\<forall>c\<in>set (dict_get blank_profile ''allergies'' ''''). c = CHR '','' \<or> is_space c)
      \<longrightarrow> filtered_recipes blank_profile SAMPLE_RECIPES =
       diet_filter (dict_get blank_profile ''diet_type'' ''omnivore'') SAMPLE_RECIPES"
    by (elim conjE)
  from this h have b: "filtered_recipes blank_profile SAMPLE_RECIPES =
       diet_filter (dict_get blank_profile ''diet_type'' ''omnivore'') SAMPLE_RECIPES"
    by (rule mp)
  have c: "CHR '','' \<notin> set '' Nut ''" by code_simp
  have d: "strip '' Nut '' = ''Nut''" by code_simp
  have d': "strip '' Nut '' \<noteq> []" by code_simp
  have l: "lower ''Nut'' = ''nut''" by code_simp
  from t have "CHR '','' \<notin> set '' Nut '' \<and> strip '' Nut '' \<noteq> []
      \<longrightarrow> parse_allergies '' Nut '' = [lower (strip '' Nut '')]"
    by (elim conjE)
  from this conjI [OF c d'] have "parse_allergies '' Nut '' = [lower (strip '' Nut '')]"
    by (rule mp)
  then have e: "parse_allergies '' Nut '' = [''nut'']" by (simp only: d l)
  have f: "dict_get nut_profile ''allergies'' '''' = '' Nut ''" by code_simp
  have g: "parse_allergies (dict_get nut_profile ''allergies'' '''') \<noteq> []" by code_simp
  from n have "parse_allergies (dict_get nut_profile ''allergies'' '''') \<noteq> [] \<longrightarrow>
      filtered_recipes nut_profile SAMPLE_RECIPES =
       filter (\<lambda>r. \<not> (\<exists>a\<in>set (parse_allergies (dict_get nut_profile ''allergies'' '''')).
                         str_in a (lower (join '', '' (ingredients r)))))
         (diet_filter (dict_get nut_profile ''diet_type'' ''omnivore'') SAMPLE_RECIPES)"
    by (elim conjE)
  from this g have k: "filtered_recipes nut_profile SAMPLE_RECIPES =
       filter (\<lambda>r. \<not> (\<exists>a\<in>set (parse_allergies (dict_get nut_profile ''allergies'' '''')).
                         str_in a (lower (join '', '' (ingredients r)))))
         (diet_filter (dict_get nut_profile ''diet_type'' ''omnivore'') SAMPLE_RECIPES)"
    by (rule mp)
  from blank_profile_facts(1) a b c d e f g k show ?thesis by (intro conjI)
qed

end
